theory Spec2Isabelle
  imports Complex_Main "HOL-Library.Sublist"
begin

section \<open>Data model\<close>

text \<open>
  Values of Go's \<open>interface{}\<close> as produced by \<open>encoding/json\<close>: \<open>nil\<close>, \<open>bool\<close>,
  \<open>float64\<close>, \<open>string\<close>, \<open>[]interface{}\<close> and \<open>map[string]interface{}\<close>. A Go map is
  an association list whose first binding of a key is the one that counts.
\<close>

datatype json =
    JNull
  | JBool bool
  | JNum real
  | JStr string
  | JArr "json list"
  | JObj "(string \<times> json) list"

type_synonym jmap = "(string \<times> json) list"

text \<open>\<open>thinking.go\<close>: \<open>FunctionCall\<close>, \<open>FunctionResponse\<close>, \<open>ContentPart\<close>, \<open>Content\<close>,
  \<open>SystemInstruction\<close>. A nil pointer is \<open>None\<close>.\<close>

record FunctionCall =
  fc_ID :: string
  fc_Name :: string
  fc_Args :: jmap

record FunctionResponse =
  fr_ID :: string
  fr_Name :: string
  fr_Response :: jmap

record ContentPart =
  Text :: string
  ThoughtSignature :: string
  FunctionCall :: "FunctionCall option"
  FunctionResponse :: "FunctionResponse option"

record Content =
  Role :: string
  Parts :: "ContentPart list"

record SystemInstruction =
  si_Role :: string
  si_Parts :: "ContentPart list"

section \<open>Strings and maps\<close>

text \<open>
  Strings are byte lists, in UTF-8 as Go has them. \<open>unicode.IsSpace\<close> holds of the code
  points U+0009 to U+000D, U+0020, U+0085, U+00A0, U+1680, U+2000 to U+200A, U+2028,
  U+2029, U+202F, U+205F and U+3000; these are their encodings.
\<close>

definition space_runes :: "string list" where
  "space_runes =
     [[CHR 0x09], [CHR 0x0A], [CHR 0x0B], [CHR 0x0C], [CHR 0x0D], [CHR 0x20],
      [CHR 0xC2, CHR 0x85], [CHR 0xC2, CHR 0xA0], [CHR 0xE1, CHR 0x9A, CHR 0x80],
      [CHR 0xE2, CHR 0x80, CHR 0x80], [CHR 0xE2, CHR 0x80, CHR 0x81], [CHR 0xE2, CHR 0x80, CHR 0x82],
      [CHR 0xE2, CHR 0x80, CHR 0x83], [CHR 0xE2, CHR 0x80, CHR 0x84], [CHR 0xE2, CHR 0x80, CHR 0x85],
      [CHR 0xE2, CHR 0x80, CHR 0x86], [CHR 0xE2, CHR 0x80, CHR 0x87], [CHR 0xE2, CHR 0x80, CHR 0x88],
      [CHR 0xE2, CHR 0x80, CHR 0x89], [CHR 0xE2, CHR 0x80, CHR 0x8A], [CHR 0xE2, CHR 0x80, CHR 0xA8],
      [CHR 0xE2, CHR 0x80, CHR 0xA9], [CHR 0xE2, CHR 0x80, CHR 0xAF], [CHR 0xE2, CHR 0x81, CHR 0x9F],
      [CHR 0xE3, CHR 0x80, CHR 0x80]]"

text \<open>The rest of \<open>s\<close> after the first of the byte sequences \<open>runes\<close> it starts with.\<close>

fun strip_rune :: "string list \<Rightarrow> string \<Rightarrow> string option" where
  "strip_rune [] s = None"
| "strip_rune (r # runes) s =
     (if r \<noteq> [] \<and> take (length r) s = r then Some (drop (length r) s) else strip_rune runes s)"

lemma strip_rune_shorter: "strip_rune runes s = Some rest \<Longrightarrow> length rest < length s"
proof (induction runes)
  case Nil
  then show ?case by simp
next
  case (Cons r runes)
  show ?case
  proof (cases "r \<noteq> [] \<and> take (length r) s = r")
    case True
    with Cons.prems have "rest = drop (length r) s" by simp
    moreover from True have "s \<noteq> []" by auto
    ultimately show ?thesis using True by (cases r) auto
  next
    case False
    with Cons show ?thesis by auto
  qed
qed

text \<open>\<open>strings.TrimLeftFunc\<close> for a set of runes given by their encodings.\<close>

function trim_runes :: "string list \<Rightarrow> string \<Rightarrow> string" where
  "trim_runes runes [] = []"
| "trim_runes runes (c # cs) =
     (case strip_rune runes (c # cs) of
        None \<Rightarrow> c # cs
      | Some rest \<Rightarrow> trim_runes runes rest)"
  by pat_completeness auto
termination
  by (relation "measure (\<lambda>(runes, s). length s)") (auto dest: strip_rune_shorter)

text \<open>
  \<open>strings.TrimSpace\<close>: white space is trimmed on the left, then on the right, where a
  rune is decoded backwards from the end.
\<close>

definition TrimSpace :: "string \<Rightarrow> string" where
  "TrimSpace s = rev (trim_runes (map rev space_runes) (rev (trim_runes space_runes s)))"

text \<open>
  \<open>strings.ToLower\<close> on the letters \<open>A\<close> to \<open>Z\<close>. The code only compares its result with
  \<open>user\<close> and \<open>tool\<close>, and no rune outside ASCII has a letter of these words as its lower
  case, so the comparisons are those of the code on every string.
\<close>

definition lower_char :: "char \<Rightarrow> char" where
  "lower_char c = (let n = (of_char c :: nat) in if 65 \<le> n \<and> n \<le> 90 then char_of (n + 32) else c)"

definition ToLower :: "string \<Rightarrow> string" where
  "ToLower s = map lower_char s"

text \<open>
  \<open>strings.ToUpper\<close>: a string of ASCII bytes has its letters \<open>a\<close> to \<open>z\<close> upper-cased; any
  other string is mapped rune by rune with \<open>unicode.ToUpper\<close>, and that mapping of the
  standard library, \<open>strings.Map(unicode.ToUpper, s)\<close>, is the parameter \<open>unicodeUpper\<close>.
\<close>

definition upper_char :: "char \<Rightarrow> char" where
  "upper_char c = (let n = (of_char c :: nat) in if 97 \<le> n \<and> n \<le> 122 then char_of (n - 32) else c)"

definition isASCII :: "string \<Rightarrow> bool" where
  "isASCII s = list_all (\<lambda>c. (of_char c :: nat) < 128) s"

definition ToUpper :: "(string \<Rightarrow> string) \<Rightarrow> string \<Rightarrow> string" where
  "ToUpper unicodeUpper s = (if isASCII s then map upper_char s else unicodeUpper s)"

fun Join :: "string list \<Rightarrow> string \<Rightarrow> string" where
  "Join [] sep = []"
| "Join [x] sep = x"
| "Join (x # y # rest) sep = x @ sep @ Join (y # rest) sep"

definition HasPrefix :: "string \<Rightarrow> string \<Rightarrow> bool" where
  "HasPrefix s pre = (take (length pre) s = pre)"

definition TrimPrefix :: "string \<Rightarrow> string \<Rightarrow> string" where
  "TrimPrefix s pre = (if HasPrefix s pre then drop (length pre) s else s)"

text \<open>Reading a key of a Go map (\<open>m[k]\<close>) and storing one (\<open>m[k] = v\<close>).\<close>

fun lookup :: "jmap \<Rightarrow> string \<Rightarrow> json option" where
  "lookup [] k = None"
| "lookup ((k', v) # rest) k = (if k' = k then Some v else lookup rest k)"

fun set_key :: "string \<Rightarrow> json \<Rightarrow> jmap \<Rightarrow> jmap" where
  "set_key k v [] = [(k, v)]"
| "set_key k v ((k', v') # rest) =
     (if k' = k then (k, v) # rest else (k', v') # set_key k v rest)"

definition text_part :: "string \<Rightarrow> ContentPart" where
  "text_part t = \<lparr>Text = t, ThoughtSignature = [], FunctionCall = None, FunctionResponse = None\<rparr>"

section \<open>Request preparation (\<open>request.go\<close>)\<close>

subsection \<open>Sanitizing contents\<close>

definition isEmptyContentPart :: "ContentPart \<Rightarrow> bool" where
  "isEmptyContentPart part =
     (case (FunctionCall part, FunctionResponse part) of
        (None, None) \<Rightarrow> Text part = []
      | _ \<Rightarrow> False)"

text \<open>The inner loop of \<open>sanitizeContents\<close>: the parts kept so far and the number pruned.\<close>

fun sanitize_parts :: "ContentPart list \<Rightarrow> ContentPart list \<Rightarrow> nat \<Rightarrow> ContentPart list \<times> nat" where
  "sanitize_parts [] parts prunedParts = (parts, prunedParts)"
| "sanitize_parts (part # rest) parts prunedParts =
     (if isEmptyContentPart part then sanitize_parts rest parts (prunedParts + 1)
      else sanitize_parts rest (parts @ [part]) prunedParts)"

text \<open>The outer loop: the contents still to visit, \<open>cleaned\<close>, \<open>prunedParts\<close>, \<open>prunedContents\<close>.\<close>

fun sanitize_loop :: "Content list \<Rightarrow> Content list \<Rightarrow> nat \<Rightarrow> nat \<Rightarrow> Content list \<times> nat \<times> nat" where
  "sanitize_loop [] cleaned prunedParts prunedContents = (cleaned, prunedParts, prunedContents)"
| "sanitize_loop (content # rest) cleaned prunedParts prunedContents =
     (if Parts content = [] then sanitize_loop rest cleaned prunedParts (prunedContents + 1)
      else case sanitize_parts (Parts content) [] prunedParts of
        (parts, prunedParts') \<Rightarrow>
          if parts = [] then sanitize_loop rest cleaned prunedParts' (prunedContents + 1)
          else sanitize_loop rest (cleaned @ [content\<lparr>Parts := parts\<rparr>]) prunedParts' prunedContents)"

text \<open>\<open>sanitizeContents\<close> returns the new value of \<open>*contents\<close> with the two counters.\<close>

definition sanitizeContents :: "Content list \<Rightarrow> Content list \<times> nat \<times> nat" where
  "sanitizeContents contents =
     (if contents = [] then (contents, 0, 0) else sanitize_loop contents [] 0 0)"

subsection \<open>Session identifier\<close>

text \<open>\<open>hex.EncodeToString\<close>: two lower-case hexadecimal digits for every byte.\<close>

definition hex_digit :: "nat \<Rightarrow> char" where
  "hex_digit n = ''0123456789abcdef'' ! (n mod 16)"

definition EncodeToString :: "string \<Rightarrow> string" where
  "EncodeToString bs = concat (map (\<lambda>b. [hex_digit (of_char b div 16), hex_digit (of_char b mod 16)]) bs)"

text \<open>
  \<open>deriveSessionID\<close>. The SHA-256 digest (\<open>sha256.Sum256\<close>, 32 bytes) and the value of
  \<open>uuid.NewString()\<close> are parameters: \<open>Sum256\<close> and \<open>NewString\<close>.
\<close>

fun deriveSessionID :: "(string \<Rightarrow> string) \<Rightarrow> string \<Rightarrow> Content list \<Rightarrow> string" where
  "deriveSessionID Sum256 NewString [] = NewString"
| "deriveSessionID Sum256 NewString (msg # rest) =
     (if ToLower (Role msg) \<noteq> ''user'' then deriveSessionID Sum256 NewString rest
      else let parts = map Text (filter (\<lambda>part. Text part \<noteq> []) (Parts msg)) in
        if parts = [] then deriveSessionID Sum256 NewString rest
        else take 32 (EncodeToString (Sum256 (Join parts [CHR 0x0A]))))"

subsection \<open>Function response identifiers\<close>

fun remove_at_first :: "string list \<Rightarrow> string \<Rightarrow> string list" where
  "remove_at_first [] target = []"
| "remove_at_first (v # rest) target = (if v = target then rest else v # remove_at_first rest target)"

definition removeFirstMatch :: "string list \<Rightarrow> string \<Rightarrow> string list" where
  "removeFirstMatch values target = (if target = [] then values else remove_at_first values target)"

text \<open>
  The state of the loop of \<open>ensureFunctionResponseIDs\<close>. \<open>perName\<close> is a Go map of slices:
  a missing key reads as the empty slice.
\<close>

record frid_state =
  pending :: "string list"
  perName :: "string \<Rightarrow> string list"
  missing :: nat

definition frid_init :: frid_state where
  "frid_init = \<lparr>pending = [], perName = (\<lambda>_. []), missing = 0\<rparr>"

text \<open>A part that carries a function call: lines 127 to 137.\<close>

definition frid_call :: "FunctionCall \<Rightarrow> frid_state \<Rightarrow> frid_state" where
  "frid_call fc st =
     (let id = TrimSpace (fc_ID fc) in
      if id = [] then st
      else let st1 = st\<lparr>pending := pending st @ [id]\<rparr>; name = TrimSpace (fc_Name fc) in
        if name \<noteq> [] then st1\<lparr>perName := (perName st1)(name := perName st1 name @ [id])\<rparr>
        else st1)"

text \<open>A function response that carries an identifier: lines 143 to 150.\<close>

definition frid_consume :: "FunctionResponse \<Rightarrow> frid_state \<Rightarrow> frid_state" where
  "frid_consume fr st =
     (let st1 = st\<lparr>pending := removeFirstMatch (pending st) (fr_ID fr)\<rparr>;
          name = TrimSpace (fr_Name fr) in
      if name \<noteq> [] then
        st1\<lparr>perName := (perName st1)(name := removeFirstMatch (perName st1 name) (fr_ID fr))\<rparr>
      else st1)"

text \<open>A function response without an identifier: lines 152 to 171. The result is the
  identifier assigned (empty when there is none) and the new state.\<close>

definition frid_by_name :: "string \<Rightarrow> frid_state \<Rightarrow> string \<times> frid_state" where
  "frid_by_name name st =
     (if name \<noteq> [] then
        (case perName st name of
           [] \<Rightarrow> ([], st)
         | assigned # ids \<Rightarrow>
             (assigned, st\<lparr>perName := (perName st)(name := ids),
                            pending := removeFirstMatch (pending st) assigned\<rparr>))
      else ([], st))"

definition frid_fallback :: "string \<Rightarrow> string \<times> frid_state \<Rightarrow> string \<times> frid_state" where
  "frid_fallback name r =
     (case r of (assigned, st) \<Rightarrow>
        if assigned = [] then
          (case pending st of
             [] \<Rightarrow> (assigned, st)
           | assigned' # rest \<Rightarrow>
               (let st1 = st\<lparr>pending := rest\<rparr> in
                (assigned',
                 if name \<noteq> [] then
                   st1\<lparr>perName := (perName st1)(name := removeFirstMatch (perName st1 name) assigned')\<rparr>
                 else st1)))
        else (assigned, st))"

definition frid_assign :: "FunctionResponse \<Rightarrow> frid_state \<Rightarrow> string \<times> frid_state" where
  "frid_assign fr st = frid_fallback (TrimSpace (fr_Name fr)) (frid_by_name (TrimSpace (fr_Name fr)) st)"

text \<open>One iteration of the inner loop: the part as it is left, and the new state.\<close>

definition frid_part :: "ContentPart \<Rightarrow> frid_state \<Rightarrow> ContentPart \<times> frid_state" where
  "frid_part part st =
     (case FunctionCall part of
        Some fc \<Rightarrow> (part, frid_call fc st)
      | None \<Rightarrow>
          (case FunctionResponse part of
             None \<Rightarrow> (part, st)
           | Some fr \<Rightarrow>
               if TrimSpace (fr_ID fr) \<noteq> [] then (part, frid_consume fr st)
               else (case frid_assign fr st of (assigned, st1) \<Rightarrow>
                 if assigned \<noteq> [] then
                   (part\<lparr>FunctionResponse := Some (fr\<lparr>fr_ID := assigned\<rparr>)\<rparr>,
                    st1\<lparr>missing := missing st1 + 1\<rparr>)
                 else (part, st1))))"

fun frid_parts :: "ContentPart list \<Rightarrow> frid_state \<Rightarrow> ContentPart list \<times> frid_state" where
  "frid_parts [] st = ([], st)"
| "frid_parts (part # rest) st =
     (case frid_part part st of (part', st1) \<Rightarrow>
        case frid_parts rest st1 of (rest', st2) \<Rightarrow> (part' # rest', st2))"

fun frid_contents :: "Content list \<Rightarrow> frid_state \<Rightarrow> Content list \<times> frid_state" where
  "frid_contents [] st = ([], st)"
| "frid_contents (content # rest) st =
     (case frid_parts (Parts content) st of (parts, st1) \<Rightarrow>
        case frid_contents rest st1 of (rest', st2) \<Rightarrow> (content\<lparr>Parts := parts\<rparr> # rest', st2))"

text \<open>\<open>ensureFunctionResponseIDs\<close> updates the contents in place and returns \<open>missing\<close>.\<close>

definition ensureFunctionResponseIDs :: "Content list \<Rightarrow> Content list \<times> nat" where
  "ensureFunctionResponseIDs contents =
     (case frid_contents contents frid_init of (contents', st) \<Rightarrow> (contents', missing st))"


section \<open>Schema conversion (\<open>ConvertSchema\<close>)\<close>

datatype GeminiParameterSchema =
  GeminiParameterSchema
    (gps_Type: string)
    (gps_Description: string)
    (gps_Properties: "(string \<times> GeminiParameterSchema) list option")
    (gps_Items: "GeminiParameterSchema option")
    (gps_Required: "string list")
    (gps_Enum: "string list")

text \<open>The nesting depth of a value: the measure of the recursion of \<open>ConvertSchema\<close>.\<close>

fun hmax :: "nat list \<Rightarrow> nat" where
  "hmax [] = 0"
| "hmax (x # xs) = max x (hmax xs)"

fun height :: "json \<Rightarrow> nat" where
  "height (JArr xs) = Suc (hmax (map height xs))"
| "height (JObj kvs) = Suc (hmax (map (\<lambda>kv. height (snd kv)) kvs))"
| "height _ = 0"

definition subSchemas :: "jmap \<Rightarrow> json list option" where
  "subSchemas input =
     (case lookup input ''anyOf'' of
        Some (JArr anyOf) \<Rightarrow> Some anyOf
      | _ \<Rightarrow> (case lookup input ''oneOf'' of Some (JArr oneOf) \<Rightarrow> Some oneOf | _ \<Rightarrow> None))"

fun find_array :: "json list \<Rightarrow> jmap option" where
  "find_array [] = None"
| "find_array (JObj subSchemaMap # rest) =
     (if lookup subSchemaMap ''type'' = Some (JStr ''array'') then Some subSchemaMap
      else find_array rest)"
| "find_array (_ # rest) = find_array rest"

definition array_branch :: "jmap \<Rightarrow> jmap option" where
  "array_branch input =
     (case subSchemas input of
        None \<Rightarrow> None
      | Some subs \<Rightarrow>
          (case find_array subs of
             None \<Rightarrow> None
           | Some subSchemaMap \<Rightarrow>
               (case lookup input ''description'' of
                  Some (JStr parentDesc) \<Rightarrow> Some (set_key ''description'' (JStr parentDesc) subSchemaMap)
                | _ \<Rightarrow> Some subSchemaMap)))"

fun strings_of :: "json list \<Rightarrow> string list" where
  "strings_of [] = []"
| "strings_of (JStr s # rest) = s # strings_of rest"
| "strings_of (_ # rest) = strings_of rest"

fun objects_of :: "jmap \<Rightarrow> (string \<times> jmap) list" where
  "objects_of [] = []"
| "objects_of ((k, JObj vMap) # rest) = (k, vMap) # objects_of rest"
| "objects_of (_ # rest) = objects_of rest"

lemma hmax_mem: "x \<in> set xs \<Longrightarrow> x \<le> hmax xs"
  by (induction xs) auto

lemma lookup_mem: "lookup m k = Some v \<Longrightarrow> (k, v) \<in> set m"
  by (induction m k rule: lookup.induct) (auto split: if_splits)

lemma mem_height: "(k, v) \<in> set m \<Longrightarrow> height v < height (JObj m)"
  using hmax_mem [of "height v" "map (\<lambda>kv. height (snd kv)) m"] by force

lemma lookup_height: "lookup m k = Some v \<Longrightarrow> height v < height (JObj m)"
  by (rule mem_height [OF lookup_mem])

lemma height_set_key: "height (JObj (set_key k (JStr d) m)) \<le> height (JObj m)"
  by (induction k "JStr d" m rule: set_key.induct) auto

lemma find_array_mem: "find_array subs = Some m \<Longrightarrow> JObj m \<in> set subs"
  by (induction subs rule: find_array.induct) (auto split: if_splits)

lemma find_array_height: "find_array subs = Some m \<Longrightarrow> height (JObj m) < height (JArr subs)"
  using hmax_mem [of "height (JObj m)" "map height subs"] find_array_mem [of subs m] by force

lemma subSchemas_height: "subSchemas input = Some subs \<Longrightarrow> height (JArr subs) < height (JObj input)"
  by (auto simp: subSchemas_def dest: lookup_height split: option.splits json.splits)

lemma array_branch_height:
  assumes "array_branch input = Some sub"
  shows "height (JObj sub) < height (JObj input)"
proof -
  from assms obtain subs m where subs: "subSchemas input = Some subs"
    and m: "find_array subs = Some m"
    and sub: "sub = m \<or> (\<exists>d. sub = set_key ''description'' (JStr d) m)"
    by (auto simp: array_branch_def split: option.splits json.splits)
  have "height (JObj sub) \<le> height (JObj m)"
    using sub height_set_key by blast
  also have "\<dots> < height (JArr subs)"
    by (rule find_array_height [OF m])
  also have "\<dots> < height (JObj input)"
    by (rule subSchemas_height [OF subs])
  finally show ?thesis .
qed

lemma objects_of_mem: "(k, m) \<in> set (objects_of p) \<Longrightarrow> (k, JObj m) \<in> set p"
  by (induction p rule: objects_of.induct) auto

lemma objects_of_height: "(k, m) \<in> set (objects_of p) \<Longrightarrow> height (JObj m) < height (JObj p)"
  by (rule mem_height [OF objects_of_mem])

text \<open>The body of \<open>ConvertSchema\<close> on a map that is not nil.\<close>

function convert :: "(string \<Rightarrow> string) \<Rightarrow> jmap \<Rightarrow> GeminiParameterSchema" where
  "convert unicodeUpper input =
     (case array_branch input of
        Some subSchemaMap \<Rightarrow> convert unicodeUpper subSchemaMap
      | None \<Rightarrow>
          GeminiParameterSchema
            (case lookup input ''type'' of Some (JStr t) \<Rightarrow> ToUpper unicodeUpper t | _ \<Rightarrow> [])
            (case lookup input ''description'' of Some (JStr d) \<Rightarrow> d | _ \<Rightarrow> [])
            (case lookup input ''properties'' of
               Some (JObj p) \<Rightarrow> Some (map (\<lambda>(k, vMap). (k, convert unicodeUpper vMap)) (objects_of p))
             | _ \<Rightarrow> None)
            (case lookup input ''items'' of Some (JObj i) \<Rightarrow> Some (convert unicodeUpper i) | _ \<Rightarrow> None)
            (case lookup input ''required'' of Some (JArr r) \<Rightarrow> strings_of r | _ \<Rightarrow> [])
            (case lookup input ''enum'' of Some (JArr e) \<Rightarrow> strings_of e | _ \<Rightarrow> []))"
  by pat_completeness auto
termination
proof (relation "measure (\<lambda>(unicodeUpper, m). height (JObj m))", goal_cases)
  case 1
  show ?case by simp
next
  case (2 unicodeUpper input v p kv k vMap)
  then have "height (JObj vMap) < height (JObj p)" "height (JObj p) < height (JObj input)"
    using objects_of_height [of k vMap p] lookup_height [of input "''properties''" "JObj p"]
    by auto
  then show ?case by (simp del: height.simps)
next
  case (3 unicodeUpper input v i)
  then show ?case by (simp add: lookup_height del: height.simps)
next
  case (4 unicodeUpper input sub)
  then show ?case by (simp add: array_branch_height del: height.simps)
qed

declare convert.simps [simp del]

text \<open>\<open>ConvertSchema\<close>: a nil map gives a nil pointer.\<close>

definition ConvertSchema :: "(string \<Rightarrow> string) \<Rightarrow> jmap option \<Rightarrow> GeminiParameterSchema option" where
  "ConvertSchema unicodeUpper input =
     (case input of None \<Rightarrow> None | Some m \<Rightarrow> Some (convert unicodeUpper m))"

section \<open>Server-sent events (\<open>TransformSSELine\<close>)\<close>

text \<open>The loop \<open>for k, v := range src { dst[k] = v }\<close>.\<close>

fun copy_into :: "jmap \<Rightarrow> jmap \<Rightarrow> jmap" where
  "copy_into [] dst = dst"
| "copy_into ((k, v) # rest) dst = copy_into rest (set_key k v dst)"

text \<open>\<open>unwrapCloudCodeResponse\<close>. A nil map is \<open>None\<close>; reading a key of it finds nothing.\<close>

definition unwrapCloudCodeResponse :: "jmap option \<Rightarrow> jmap option" where
  "unwrapCloudCodeResponse cloudCodeResp =
     (case cloudCodeResp of
        None \<Rightarrow> cloudCodeResp
      | Some outer \<Rightarrow>
          (case lookup outer ''response'' of
             Some (JObj response) \<Rightarrow>
               Some (copy_into response (copy_into (filter (\<lambda>kv. fst kv \<noteq> ''response'') outer) []))
           | _ \<Rightarrow> cloudCodeResp))"

text \<open>
  \<open>TransformSSELine\<close>. \<open>json.Unmarshal\<close> into a map and \<open>json.Marshal\<close> of a map are the
  parameters \<open>Unmarshal\<close> and \<open>Marshal\<close>; \<open>Inl\<close> is their error.
\<close>

definition TransformSSELine ::
  "(string \<Rightarrow> string + jmap option) \<Rightarrow> (jmap option \<Rightarrow> string + string) \<Rightarrow> string \<Rightarrow> string" where
  "TransformSSELine Unmarshal Marshal line =
     (if \<not> HasPrefix line ''data: '' then line
      else case Unmarshal (TrimPrefix line ''data: '') of
        Inl err \<Rightarrow> line
      | Inr cloudCodeResp \<Rightarrow>
          (case Marshal (unwrapCloudCodeResponse cloudCodeResp) of
             Inl err \<Rightarrow> line
           | Inr transformedJSON \<Rightarrow> ''data: '' @ transformedJSON))"

section \<open>Message translation (\<open>convertMessagesToGeminiContents\<close>)\<close>

text \<open>
  \<open>openai.Message\<close> and its tool calls, with the fields the translator reads:
  \<open>tc.ID\<close>, \<open>tc.Function.Name\<close>, \<open>tc.Function.Arguments\<close>; \<open>msg.Role\<close>, \<open>msg.Content\<close> (an
  \<open>interface{}\<close>, switched on its dynamic type), \<open>msg.Name\<close>, \<open>msg.ToolCallID\<close>, \<open>msg.ToolCalls\<close>.
\<close>

record ToolCall =
  tc_ID :: string
  tc_Name :: string
  tc_Arguments :: string

record Message =
  msg_Role :: string
  msg_Content :: json
  msg_Name :: string
  msg_ToolCallID :: string
  msg_ToolCalls :: "ToolCall list"

text \<open>The state of the loop of \<open>convertMessagesToGeminiContents\<close>; \<open>uuids\<close> counts the
  identifiers drawn from \<open>uuid.NewString()\<close>.\<close>

record conv_state =
  toolCallNameByID :: "string \<rightharpoonup> string"
  toolCallIDByName :: "string \<rightharpoonup> string"
  pendingToolParts :: "ContentPart list"
  geminiContents :: "Content list"
  systemInstruction :: "SystemInstruction option"
  uuids :: nat

text \<open>The first loop, lines 738 to 746.\<close>

fun prepass_calls :: "ToolCall list \<Rightarrow> (string \<rightharpoonup> string) \<Rightarrow> (string \<rightharpoonup> string)" where
  "prepass_calls [] names = names"
| "prepass_calls (tc # rest) names =
     prepass_calls rest
       (if tc_ID tc \<noteq> [] \<and> tc_Name tc \<noteq> [] then names(tc_ID tc \<mapsto> tc_Name tc) else names)"

fun prepass :: "Message list \<Rightarrow> (string \<rightharpoonup> string) \<Rightarrow> (string \<rightharpoonup> string)" where
  "prepass [] names = names"
| "prepass (m # rest) names =
     prepass rest
       (if msg_Role m = ''assistant'' \<and> msg_ToolCalls m \<noteq> [] then prepass_calls (msg_ToolCalls m) names
        else names)"

text \<open>The texts of the entries \<open>{"type": "text", "text": ...}\<close> of an array content.\<close>

fun text_entries :: "json list \<Rightarrow> string list" where
  "text_entries [] = []"
| "text_entries (JObj p # rest) =
     (if lookup p ''type'' = Some (JStr ''text'') then
        (case lookup p ''text'' of
           Some (JStr txt) \<Rightarrow> txt # text_entries rest
         | _ \<Rightarrow> text_entries rest)
      else text_entries rest)"
| "text_entries (_ # rest) = text_entries rest"

text \<open>A system message, lines 749 to 776.\<close>

definition system_message :: "Message \<Rightarrow> SystemInstruction option \<Rightarrow> SystemInstruction option" where
  "system_message msg existing =
     (let si = (case existing of
                  None \<Rightarrow> \<lparr>si_Role = ''system'', si_Parts = []\<rparr>
                | Some si \<Rightarrow> si)
      in Some (case msg_Content msg of
           JStr content \<Rightarrow>
             if content \<noteq> [] then si\<lparr>si_Parts := si_Parts si @ [text_part content]\<rparr> else si
         | JArr content \<Rightarrow>
             si\<lparr>si_Parts := si_Parts si @ map text_part (filter (\<lambda>txt. txt \<noteq> []) (text_entries content))\<rparr>
         | _ \<Rightarrow> si))"

text \<open>The function response of a tool message with the text \<open>output\<close>: lines 793 to 829 and,
  again, 846 to 883.\<close>

definition tool_response ::
  "(string \<rightharpoonup> string) \<Rightarrow> (string \<rightharpoonup> string) \<Rightarrow> Message \<Rightarrow> string \<Rightarrow> string + ContentPart" where
  "tool_response names ids msg output =
     (let resolvedName =
        (if msg_Name msg = [] \<and> msg_ToolCallID msg \<noteq> [] then
           (case names (msg_ToolCallID msg) of Some n \<Rightarrow> n | None \<Rightarrow> msg_Name msg)
         else msg_Name msg)
      in if resolvedName = [] then
           Inl ''tool response missing function name and unresolved tool_call_id''
         else
           let trimmed = TrimSpace (msg_ToolCallID msg);
               resolvedID =
                 (if trimmed = [] \<and> resolvedName \<noteq> [] then
                    (case ids resolvedName of Some i \<Rightarrow> i | None \<Rightarrow> trimmed)
                  else trimmed)
           in Inr \<lparr>Text = [], ThoughtSignature = [], FunctionCall = None,
                  FunctionResponse = Some \<lparr>fr_ID = resolvedID, fr_Name = resolvedName,
                    fr_Response = [(''output'', JStr output)]\<rparr>\<rparr>)"

text \<open>The switch on the type of \<open>msg.Content\<close>, lines 789 to 896.\<close>

definition content_parts :: "conv_state \<Rightarrow> Message \<Rightarrow> string + ContentPart list" where
  "content_parts st msg =
     (case msg_Content msg of
        JStr content \<Rightarrow>
          if msg_Role msg = ''tool'' then
            (case tool_response (toolCallNameByID st) (toolCallIDByName st) msg content of
               Inl err \<Rightarrow> Inl err
             | Inr part \<Rightarrow> Inr [part])
          else Inr [text_part content]
      | JArr content \<Rightarrow>
          if msg_Role msg = ''tool'' then
            (case tool_response (toolCallNameByID st) (toolCallIDByName st) msg
                    (Join (filter (\<lambda>txt. txt \<noteq> []) (text_entries content)) [CHR 0x0A]) of
               Inl err \<Rightarrow> Inl err
             | Inr part \<Rightarrow> Inr [part])
          else Inr (map text_part (text_entries content))
      | _ \<Rightarrow> Inr [])"

text \<open>The tool calls of an assistant message, lines 899 to 921: one iteration, and the
  loop. \<open>Unmarshal\<close> is \<open>json.Unmarshal\<close> into a map and \<open>NewString n\<close> the \<open>n\<close>-th value of
  \<open>uuid.NewString()\<close>.\<close>

definition tool_call ::
  "(string \<Rightarrow> string + jmap option) \<Rightarrow> (nat \<Rightarrow> string) \<Rightarrow> ToolCall \<Rightarrow>
   conv_state \<Rightarrow> ContentPart \<times> conv_state" where
  "tool_call Unmarshal NewString tc st =
     (let args = (case Unmarshal (tc_Arguments tc) of Inr (Some a) \<Rightarrow> a | _ \<Rightarrow> []);
          fresh = (TrimSpace (tc_ID tc) = []);
          id = (if fresh then ''toolu_'' @ NewString (uuids st) else tc_ID tc);
          st1 = (if fresh then st\<lparr>uuids := uuids st + 1\<rparr> else st);
          st2 = (if tc_Name tc \<noteq> [] then
                   st1\<lparr>toolCallNameByID := (toolCallNameByID st1)(id \<mapsto> tc_Name tc),
                       toolCallIDByName := (toolCallIDByName st1)(tc_Name tc \<mapsto> id)\<rparr>
                 else st1)
      in (\<lparr>Text = [], ThoughtSignature = [],
           FunctionCall = Some \<lparr>fc_ID = id, fc_Name = tc_Name tc, fc_Args = args\<rparr>,
           FunctionResponse = None\<rparr>, st2))"

fun tool_calls ::
  "(string \<Rightarrow> string + jmap option) \<Rightarrow> (nat \<Rightarrow> string) \<Rightarrow> ToolCall list \<Rightarrow>
   ContentPart list \<times> conv_state \<Rightarrow> ContentPart list \<times> conv_state" where
  "tool_calls Unmarshal NewString [] r = r"
| "tool_calls Unmarshal NewString (tc # rest) (parts, st) =
     (case tool_call Unmarshal NewString tc st of
        (part, st1) \<Rightarrow> tool_calls Unmarshal NewString rest (parts @ [part], st1))"

text \<open>One iteration of the second loop, lines 748 to 935.\<close>

definition convert_message ::
  "(string \<Rightarrow> string + jmap option) \<Rightarrow> (nat \<Rightarrow> string) \<Rightarrow> Message \<Rightarrow> conv_state \<Rightarrow> string + conv_state" where
  "convert_message Unmarshal NewString msg st =
     (if msg_Role msg = ''system'' then
        Inr (st\<lparr>systemInstruction := system_message msg (systemInstruction st)\<rparr>)
      else
        let role = (if msg_Role msg = ''user'' then ''user''
                    else if msg_Role msg = ''assistant'' then ''model''
                    else ''user'')
        in case content_parts st msg of
             Inl err \<Rightarrow> Inl err
           | Inr parts \<Rightarrow>
               (case (if msg_Role msg = ''assistant'' \<and> msg_ToolCalls msg \<noteq> []
                      then tool_calls Unmarshal NewString (msg_ToolCalls msg) (parts, st)
                      else (parts, st)) of
                  (parts1, st1) \<Rightarrow>
                    (case (if ToLower (msg_Role msg) = ''tool'' \<and> parts1 \<noteq> []
                           then ([], st1\<lparr>pendingToolParts := pendingToolParts st1 @ parts1\<rparr>)
                           else (parts1, st1)) of
                       (parts2, st2) \<Rightarrow>
                         Inr (if parts2 \<noteq> []
                              then st2\<lparr>geminiContents := geminiContents st2 @ [\<lparr>Role = role, Parts = parts2\<rparr>]\<rparr>
                              else st2))))"

fun convert_loop ::
  "(string \<Rightarrow> string + jmap option) \<Rightarrow> (nat \<Rightarrow> string) \<Rightarrow> Message list \<Rightarrow> conv_state \<Rightarrow> string + conv_state" where
  "convert_loop Unmarshal NewString [] st = Inr st"
| "convert_loop Unmarshal NewString (msg # rest) st =
     (case convert_message Unmarshal NewString msg st of
        Inl err \<Rightarrow> Inl err
      | Inr st1 \<Rightarrow> convert_loop Unmarshal NewString rest st1)"

text \<open>\<open>convertMessagesToGeminiContents\<close>: the error, or the contents and the system
  instruction.\<close>

definition convertMessagesToGeminiContents ::
  "(string \<Rightarrow> string + jmap option) \<Rightarrow> (nat \<Rightarrow> string) \<Rightarrow> Message list \<Rightarrow>
   string + Content list \<times> SystemInstruction option" where
  "convertMessagesToGeminiContents Unmarshal NewString messages =
     (case convert_loop Unmarshal NewString messages
             \<lparr>toolCallNameByID = prepass messages Map.empty, toolCallIDByName = Map.empty,
              pendingToolParts = [], geminiContents = [], systemInstruction = None, uuids = 0\<rparr> of
        Inl err \<Rightarrow> Inl err
      | Inr st \<Rightarrow>
          Inr (if pendingToolParts st \<noteq> []
               then geminiContents st @ [\<lparr>Role = ''user'', Parts = pendingToolParts st\<rparr>]
               else geminiContents st,
               systemInstruction st))"

section \<open>Upstream client (\<open>client.go\<close>)\<close>

text \<open>
  The response of the HTTP client as the client reads it: the status, what
  \<open>ioutil.ReadAll\<close> returns for the body (\<open>Inl\<close> is its error) and the \<open>Content-Type\<close> header.
\<close>

record Response =
  StatusCode :: int
  Body :: "string + string"
  ContentType :: string

text \<open>
  The calls the client makes to its two collaborators: \<open>provider.GetCredentials()\<close>,
  \<open>provider.RefreshToken()\<close> and \<open>httpClient.Do\<close> of a request to a URL with a bearer token
  (method, body and \<open>Accept\<close> header are the same for every request of one call). The
  collaborators answer a call depending on the calls made before it.
\<close>

datatype call = GetCredentials | RefreshToken | Do string string

record world =
  credentials :: "call list \<Rightarrow> string + string"
  refresh :: "call list \<Rightarrow> string option"
  http :: "call list \<Rightarrow> string \<Rightarrow> string \<Rightarrow> string + Response"

text \<open>\<open>lastErr\<close>: an error made by \<open>fmt.Errorf\<close>, or an \<open>UpstreamError\<close> with its status code,
  body, content type and endpoint.\<close>

datatype go_error = Errorf string | UpstreamError int string string string

text \<open>
  \<open>doRequestWithToken\<close>, after the calls \<open>hist\<close>: the result and the calls it makes. The
  request is built from the constant method \<open>POST\<close> and a URL made of an endpoint constant,
  which does not fail; \<open>Inl\<close> is the error of \<open>httpClient.Do\<close>.
\<close>

definition doRequestWithToken :: "world \<Rightarrow> string \<Rightarrow> string \<Rightarrow> call list \<Rightarrow> (string + Response) \<times> call list" where
  "doRequestWithToken w url token hist =
     (case http w hist url token of
        Inl err \<Rightarrow> (Inl (''request execution error: '' @ err), [Do url token])
      | Inr resp \<Rightarrow> (Inr resp, [Do url token]))"

text \<open>\<open>doRequest\<close>, after the calls \<open>hist\<close>: the result and the calls it makes, in order.\<close>

definition doRequest :: "world \<Rightarrow> string \<Rightarrow> call list \<Rightarrow> (string + Response) \<times> call list" where
  "doRequest w url hist =
     (case credentials w hist of
        Inl err \<Rightarrow> (Inl (''unable to get credentials: '' @ err), [GetCredentials])
      | Inr accessToken \<Rightarrow>
          if accessToken = [] then (Inl ''access token is empty'', [GetCredentials])
          else
            (case doRequestWithToken w url accessToken (hist @ [GetCredentials]) of
               (Inl err, c1) \<Rightarrow> (Inl err, GetCredentials # c1)
             | (Inr resp, c1) \<Rightarrow>
                 if StatusCode resp \<noteq> 401 then (Inr resp, GetCredentials # c1)
                 else
                   (case refresh w (hist @ GetCredentials # c1) of
                      Some err \<Rightarrow>
                        (Inl (''failed to refresh token: '' @ err), GetCredentials # c1 @ [RefreshToken])
                    | None \<Rightarrow>
                        (case credentials w (hist @ GetCredentials # c1 @ [RefreshToken]) of
                           Inl err \<Rightarrow>
                             (Inl (''failed to reload credentials after refresh: '' @ err),
                              GetCredentials # c1 @ [RefreshToken, GetCredentials])
                         | Inr refreshed \<Rightarrow>
                             (case doRequestWithToken w url refreshed
                                     (hist @ GetCredentials # c1 @ [RefreshToken, GetCredentials]) of
                                (r, c2) \<Rightarrow> (r, GetCredentials # c1 @ [RefreshToken, GetCredentials] @ c2))))))"

text \<open>One iteration of the loop of \<open>GenerateContent\<close> as it is logged: the endpoint, the
  calls \<open>doRequest\<close> made and its result.\<close>

record attempt =
  att_endpoint :: string
  att_calls :: "call list"
  att_result :: "string + Response"

definition calls_of :: "attempt list \<Rightarrow> call list" where
  "calls_of tried = concat (map att_calls tried)"

text \<open>
  The loop of \<open>GenerateContent\<close>, lines 168 to 211, over the endpoints still to try, with
  \<open>lastErr\<close> and the log of the iterations made. \<open>Unmarshal\<close> is \<open>json.Unmarshal\<close> into the
  response type. The result is the response or the error, and the log.
\<close>

fun generate_loop ::
  "world \<Rightarrow> (string \<Rightarrow> string + 'r) \<Rightarrow> string list \<Rightarrow> go_error option \<Rightarrow> attempt list \<Rightarrow>
   (go_error + 'r) \<times> attempt list" where
  "generate_loop w Unmarshal [] lastErr tried =
     (case lastErr of
        Some err \<Rightarrow> (Inl err, tried)
      | None \<Rightarrow> (Inl (Errorf ''generateContent failed with no endpoints available''), tried))"
| "generate_loop w Unmarshal (endpoint # rest) lastErr tried =
     (case doRequest w (endpoint @ ''/v1internal:generateContent'') (calls_of tried) of
        (r, calls) \<Rightarrow>
          (let tried1 = tried @ [\<lparr>att_endpoint = endpoint, att_calls = calls, att_result = r\<rparr>] in
           case r of
             Inl err \<Rightarrow> generate_loop w Unmarshal rest (Some (Errorf err)) tried1
           | Inr resp \<Rightarrow>
               (case Body resp of
                  Inl err \<Rightarrow>
                    generate_loop w Unmarshal rest
                      (Some (Errorf (''could not read response body: '' @ err))) tried1
                | Inr respBody \<Rightarrow>
                    if StatusCode resp \<noteq> 200 then
                      generate_loop w Unmarshal rest
                        (Some (UpstreamError (StatusCode resp) respBody (ContentType resp) endpoint)) tried1
                    else
                      (case Unmarshal respBody of
                         Inl err \<Rightarrow>
                           (Inl (Errorf (''could not unmarshal response body: '' @ err)), tried1)
                       | Inr result \<Rightarrow> (Inr result, tried1)))))"

definition Endpoints :: "string list" where
  "Endpoints = [''https://daily-cloudcode-pa.googleapis.com'', ''https://cloudcode-pa.googleapis.com'']"

text \<open>
  \<open>GenerateContent\<close>. \<open>marshalled\<close> is what \<open>json.Marshal\<close> returns for the prepared request:
  its error, or the bytes that every request of the call carries.
\<close>

definition GenerateContent ::
  "world \<Rightarrow> (string \<Rightarrow> string + 'r) \<Rightarrow> string + string \<Rightarrow> (go_error + 'r) \<times> attempt list" where
  "GenerateContent w Unmarshal marshalled =
     (case marshalled of
        Inl err \<Rightarrow> (Inl (Errorf (''could not marshal request body: '' @ err)), [])
      | Inr bodyBytes \<Rightarrow> generate_loop w Unmarshal Endpoints None [])"


section \<open>Specification-side definitions\<close>

text \<open>
  Following the words of the specification, not the code: the newline-joined text of the
  first user-role entry that has a non-empty text part, if there is one.
\<close>

definition spec_first_user_text :: "Content list \<Rightarrow> string option" where
  "spec_first_user_text contents =
     (case filter (\<lambda>c. ToLower (Role c) = ''user'' \<and> (\<exists>p \<in> set (Parts c). Text p \<noteq> [])) contents of
        [] \<Rightarrow> None
      | c # _ \<Rightarrow> Some (Join (map Text (filter (\<lambda>p. Text p \<noteq> []) (Parts c))) [CHR 0x0A]))"

text \<open>
  Following the words of the specification: the tool call identifiers for which a function
  name is recorded, which are those of the tool calls of assistant messages that have an
  identifier and a name; and the contents a tool message is read from, a string or an
  array of parts.
\<close>

definition recorded_ids :: "Message list \<Rightarrow> string list" where
  "recorded_ids messages =
     concat (map (\<lambda>m. map tc_ID (filter (\<lambda>tc. tc_ID tc \<noteq> [] \<and> tc_Name tc \<noteq> []) (msg_ToolCalls m)))
       (filter (\<lambda>m. msg_Role m = ''assistant'') messages))"

fun text_or_array :: "json \<Rightarrow> bool" where
  "text_or_array (JStr _) = True"
| "text_or_array (JArr _) = True"
| "text_or_array _ = False"

text \<open>
  The invariant of the table \<open>toolCallNameByID\<close> during translation: it holds every recorded
  identifier, beyond them only identifiers the translator generated, and no empty name.
\<close>

definition names_ok :: "Message list \<Rightarrow> (nat \<Rightarrow> string) \<Rightarrow> (string \<rightharpoonup> string) \<Rightarrow> bool" where
  "names_ok messages N names \<longleftrightarrow>
     set (recorded_ids messages) \<subseteq> dom names \<and>
     dom names \<subseteq> set (recorded_ids messages) \<union> range (\<lambda>n. ''toolu_'' @ N n) \<and>
     (\<forall>k. names k \<noteq> Some [])"

text \<open>
  Following the words of the specification, for the upstream call: an attempt that ends
  the loop, with status 200 and a body that was read; the log as a replay, each attempt
  being one \<open>doRequest\<close> against its endpoint after the calls of the attempts before it;
  the error recorded for an attempt that does not end the loop; and what holds of the
  result and the attempts made when the loop over the endpoints \<open>es\<close> returns.
\<close>

fun ok200 :: "string + Response \<Rightarrow> bool" where
  "ok200 (Inl err) = False"
| "ok200 (Inr resp) = (StatusCode resp = 200 \<and> (case Body resp of Inl err \<Rightarrow> False | Inr b \<Rightarrow> True))"

fun replay :: "world \<Rightarrow> call list \<Rightarrow> attempt list \<Rightarrow> bool" where
  "replay w hist [] = True"
| "replay w hist (a # rest) =
     (doRequest w (att_endpoint a @ ''/v1internal:generateContent'') hist = (att_result a, att_calls a) \<and>
      replay w (hist @ att_calls a) rest)"

definition recorded_error :: "attempt \<Rightarrow> go_error" where
  "recorded_error a =
     (case att_result a of
        Inl err \<Rightarrow> Errorf err
      | Inr resp \<Rightarrow>
          (case Body resp of
             Inl err \<Rightarrow> Errorf (''could not read response body: '' @ err)
           | Inr b \<Rightarrow> UpstreamError (StatusCode resp) b (ContentType resp) (att_endpoint a)))"

definition loop_post ::
  "(string \<Rightarrow> string + 'r) \<Rightarrow> string list \<Rightarrow> go_error option \<Rightarrow> go_error + 'r \<Rightarrow> attempt list \<Rightarrow> bool" where
  "loop_post U es lastErr res new \<longleftrightarrow>
     prefix (map att_endpoint new) es \<and>
     (\<forall>a \<in> set (butlast new). \<not> ok200 (att_result a)) \<and>
     (case res of
        Inr x \<Rightarrow>
          new \<noteq> [] \<and>
          (\<exists>resp b. att_result (last new) = Inr resp \<and> StatusCode resp = 200 \<and>
             Body resp = Inr b \<and> U b = Inr x)
      | Inl err \<Rightarrow>
          (new \<noteq> [] \<and>
           (\<exists>resp b e. att_result (last new) = Inr resp \<and> StatusCode resp = 200 \<and>
              Body resp = Inr b \<and> U b = Inl e \<and>
              err = Errorf (''could not unmarshal response body: '' @ e))) \<or>
          (map att_endpoint new = es \<and> (\<forall>a \<in> set new. \<not> ok200 (att_result a)) \<and>
           err = (if new = [] then
                    (case lastErr of Some e \<Rightarrow> e
                     | None \<Rightarrow> Errorf ''generateContent failed with no endpoints available'')
                  else recorded_error (last new))))"

section \<open>Properties of request sanitization\<close>

lemma isEmptyContentPart_iff:
  "isEmptyContentPart part \<longleftrightarrow> Text part = [] \<and> FunctionCall part = None \<and> FunctionResponse part = None"
  by (auto simp: isEmptyContentPart_def split: option.splits)

lemma sanitize_parts_eq:
  "sanitize_parts ps parts n =
     (parts @ filter (\<lambda>p. \<not> isEmptyContentPart p) ps, n + length (filter isEmptyContentPart ps))"
  by (induction ps arbitrary: parts n) auto

lemma sanitize_loop_fst:
  "fst (sanitize_loop cs cleaned pp pc) =
     cleaned @ filter (\<lambda>c. Parts c \<noteq> [])
       (map (\<lambda>c. c\<lparr>Parts := filter (\<lambda>p. \<not> isEmptyContentPart p) (Parts c)\<rparr>) cs)"
  by (induction cs arbitrary: cleaned pp pc) (auto simp: sanitize_parts_eq)

lemma sanitizeContents_fst:
  "fst (sanitizeContents cs) =
     filter (\<lambda>c. Parts c \<noteq> [])
       (map (\<lambda>c. c\<lparr>Parts := filter (\<lambda>p. \<not> isEmptyContentPart p) (Parts c)\<rparr>) cs)"
  by (simp add: sanitizeContents_def sanitize_loop_fst)

text \<open>
  C7. \<open>sanitizeContents\<close> removes exactly the parts that have empty text and carry neither
  a function call nor a function response, then removes every content left without parts,
  and keeps the order of what survives. A content whose only part is such an empty part is
  removed; a content whose only part is a function call with empty text is kept.
\<close>

theorem sanitizeContents_removes_empty:
  "fst (sanitizeContents contents) =
     filter (\<lambda>c. Parts c \<noteq> [])
       (map (\<lambda>c. c\<lparr>Parts := filter (\<lambda>p. Text p \<noteq> [] \<or> FunctionCall p \<noteq> None \<or> FunctionResponse p \<noteq> None) (Parts c)\<rparr>)
          contents)
   \<and> fst (sanitizeContents
        [\<lparr>Role = r, Parts = [\<lparr>Text = [], ThoughtSignature = ts, FunctionCall = None, FunctionResponse = None\<rparr>]\<rparr>]) = []
   \<and> fst (sanitizeContents
        [\<lparr>Role = r, Parts = [\<lparr>Text = [], ThoughtSignature = ts, FunctionCall = Some fc, FunctionResponse = None\<rparr>]\<rparr>])
       = [\<lparr>Role = r, Parts = [\<lparr>Text = [], ThoughtSignature = ts, FunctionCall = Some fc, FunctionResponse = None\<rparr>]\<rparr>]"
  by (simp add: sanitizeContents_fst isEmptyContentPart_iff)

theorem sanitizeContents_removes_empty_witness:
  "fst (sanitizeContents
     [\<lparr>Role = ''user'', Parts = [text_part ''hi'', text_part []]\<rparr>,
      \<lparr>Role = ''model'', Parts = [text_part []]\<rparr>,
      \<lparr>Role = ''user'', Parts = [text_part ''bye'']\<rparr>])
   = [\<lparr>Role = ''user'', Parts = [text_part ''hi'']\<rparr>, \<lparr>Role = ''user'', Parts = [text_part ''bye'']\<rparr>]"
  using sanitizeContents_removes_empty [of
     "[\<lparr>Role = ''user'', Parts = [text_part ''hi'', text_part []]\<rparr>,
      \<lparr>Role = ''model'', Parts = [text_part []]\<rparr>,
      \<lparr>Role = ''user'', Parts = [text_part ''bye'']\<rparr>]"]
  by (simp add: text_part_def)

text \<open>
  C10. A part that carries a thought signature but empty text and neither a function call
  nor a function response is classified as empty, and no content of the sanitized request
  contains it.
\<close>

theorem thoughtSignature_only_part_removed:
  assumes "ThoughtSignature part \<noteq> []" and "Text part = []"
    and "FunctionCall part = None" and "FunctionResponse part = None"
  shows "isEmptyContentPart part
     \<and> (\<forall>content \<in> set (fst (sanitizeContents contents)). part \<notin> set (Parts content))"
  using assms by (auto simp: sanitizeContents_fst isEmptyContentPart_iff)

theorem thoughtSignature_only_part_removed_witness:
  "isEmptyContentPart \<lparr>Text = [], ThoughtSignature = ''sig'', FunctionCall = None, FunctionResponse = None\<rparr>
   \<and> fst (sanitizeContents
        [\<lparr>Role = ''model'', Parts = [\<lparr>Text = [], ThoughtSignature = ''sig'', FunctionCall = None, FunctionResponse = None\<rparr>,
                                   text_part ''answer'']\<rparr>])
     = [\<lparr>Role = ''model'', Parts = [text_part ''answer'']\<rparr>]"
  using thoughtSignature_only_part_removed [of
      "\<lparr>Text = [], ThoughtSignature = ''sig'', FunctionCall = None, FunctionResponse = None\<rparr>"
      "[\<lparr>Role = ''model'', Parts = [\<lparr>Text = [], ThoughtSignature = ''sig'', FunctionCall = None, FunctionResponse = None\<rparr>,
                                   text_part ''answer'']\<rparr>]"]
  by (simp add: sanitizeContents_def isEmptyContentPart_def text_part_def)

section \<open>Properties of the session identifier\<close>

lemma length_EncodeToString: "length (EncodeToString bs) = 2 * length bs"
  by (induction bs) (auto simp: EncodeToString_def)

lemma filter_Text_empty: "filter (\<lambda>p. Text p \<noteq> []) ps = [] \<longleftrightarrow> (\<forall>p \<in> set ps. Text p = [])"
  by (induction ps) auto

lemma deriveSessionID_first_user_text:
  "spec_first_user_text contents = Some t \<Longrightarrow>
   deriveSessionID Sum256 u contents = take 32 (EncodeToString (Sum256 t))"
proof (induction contents)
  case Nil
  then show ?case by (simp add: spec_first_user_text_def)
next
  case (Cons c cs)
  show ?case
  proof (cases "ToLower (Role c) = ''user'' \<and> (\<exists>p \<in> set (Parts c). Text p \<noteq> [])")
    case True
    then have "filter (\<lambda>p. Text p \<noteq> []) (Parts c) \<noteq> []"
      by (simp add: filter_Text_empty)
    with True Cons.prems show ?thesis
      by (simp add: spec_first_user_text_def Let_def)
  next
    case False
    with Cons.prems have "spec_first_user_text cs = Some t"
      by (simp add: spec_first_user_text_def)
    then have "deriveSessionID Sum256 u cs = take 32 (EncodeToString (Sum256 t))"
      by (rule Cons.IH)
    with False show ?thesis
      by (auto simp: Let_def filter_Text_empty)
  qed
qed

text \<open>
  C6. Two content lists whose first user-role entry with non-empty text parts gives the
  same newline-joined text get the same session identifier, whatever the random
  identifiers of the two calls: the first 32 hexadecimal characters of the SHA-256 digest
  of that text.
\<close>

theorem deriveSessionID_deterministic:
  assumes "spec_first_user_text contents = Some t" and "spec_first_user_text contents' = Some t"
    and "length (Sum256 t) = 32"
  shows "deriveSessionID Sum256 u contents = deriveSessionID Sum256 u' contents'
     \<and> deriveSessionID Sum256 u contents = take 32 (EncodeToString (Sum256 t))
     \<and> length (deriveSessionID Sum256 u contents) = 32"
  using assms by (simp add: deriveSessionID_first_user_text length_EncodeToString)

theorem deriveSessionID_deterministic_witness:
  "deriveSessionID (\<lambda>s. take 32 (s @ replicate 32 (CHR 0x00))) ''uuid-1''
      [\<lparr>Role = ''model'', Parts = [text_part ''m'']\<rparr>,
       \<lparr>Role = ''User'', Parts = [text_part ''a'', text_part [], text_part ''b'']\<rparr>]
   = deriveSessionID (\<lambda>s. take 32 (s @ replicate 32 (CHR 0x00))) ''uuid-2''
      [\<lparr>Role = ''user'', Parts = [text_part ''a'', text_part ''b'']\<rparr>,
       \<lparr>Role = ''user'', Parts = [text_part ''c'']\<rparr>]
   \<and> deriveSessionID (\<lambda>s. take 32 (s @ replicate 32 (CHR 0x00))) ''uuid-1''
      [\<lparr>Role = ''model'', Parts = [text_part ''m'']\<rparr>,
       \<lparr>Role = ''User'', Parts = [text_part ''a'', text_part [], text_part ''b'']\<rparr>]
     = ''610a6200000000000000000000000000''"
proof -
  let ?S = "\<lambda>s. take 32 (s @ replicate 32 (CHR 0x00))"
  let ?a = "[\<lparr>Role = ''model'', Parts = [text_part ''m'']\<rparr>,
       \<lparr>Role = ''User'', Parts = [text_part ''a'', text_part [], text_part ''b'']\<rparr>]"
  let ?b = "[\<lparr>Role = ''user'', Parts = [text_part ''a'', text_part ''b'']\<rparr>,
       \<lparr>Role = ''user'', Parts = [text_part ''c'']\<rparr>]"
  let ?t = "[CHR ''a'', CHR 0x0A, CHR ''b'']"
  have a: "spec_first_user_text ?a = Some ?t" by code_simp
  have b: "spec_first_user_text ?b = Some ?t" by code_simp
  have l: "length (?S ?t) = 32" by simp
  have e: "take 32 (EncodeToString (?S ?t)) = ''610a6200000000000000000000000000''" by code_simp
  note r = deriveSessionID_deterministic [of ?a ?t ?b ?S "''uuid-1''" "''uuid-2''", OF a b l]
  from r have r1: "deriveSessionID ?S ''uuid-1'' ?a = deriveSessionID ?S ''uuid-2'' ?b" ..
  from r have "deriveSessionID ?S ''uuid-1'' ?a = take 32 (EncodeToString (?S ?t))" by (elim conjE)
  then have r2: "deriveSessionID ?S ''uuid-1'' ?a = ''610a6200000000000000000000000000''"
    by (rule trans) (rule e)
  from r1 r2 show ?thesis ..
qed

section \<open>Properties of function response identifiers\<close>

lemma ensureFunctionResponseIDs_example:
  "ensureFunctionResponseIDs
     [\<lparr>Role = ''model'', Parts =
        [\<lparr>Text = [], ThoughtSignature = [],
          FunctionCall = Some \<lparr>fc_ID = ''1'', fc_Name = ''x'', fc_Args = []\<rparr>, FunctionResponse = None\<rparr>,
         \<lparr>Text = [], ThoughtSignature = [],
          FunctionCall = Some \<lparr>fc_ID = ''2'', fc_Name = ''y'', fc_Args = []\<rparr>, FunctionResponse = None\<rparr>]\<rparr>,
      \<lparr>Role = ''user'', Parts =
        [\<lparr>Text = [], ThoughtSignature = [], FunctionCall = None,
          FunctionResponse = Some \<lparr>fr_ID = [], fr_Name = ''y'', fr_Response = []\<rparr>\<rparr>,
         \<lparr>Text = [], ThoughtSignature = [], FunctionCall = None,
          FunctionResponse = Some \<lparr>fr_ID = [], fr_Name = ''x'', fr_Response = []\<rparr>\<rparr>]\<rparr>]
   = ([\<lparr>Role = ''model'', Parts =
        [\<lparr>Text = [], ThoughtSignature = [],
          FunctionCall = Some \<lparr>fc_ID = ''1'', fc_Name = ''x'', fc_Args = []\<rparr>, FunctionResponse = None\<rparr>,
         \<lparr>Text = [], ThoughtSignature = [],
          FunctionCall = Some \<lparr>fc_ID = ''2'', fc_Name = ''y'', fc_Args = []\<rparr>, FunctionResponse = None\<rparr>]\<rparr>,
      \<lparr>Role = ''user'', Parts =
        [\<lparr>Text = [], ThoughtSignature = [], FunctionCall = None,
          FunctionResponse = Some \<lparr>fr_ID = ''2'', fr_Name = ''y'', fr_Response = []\<rparr>\<rparr>,
         \<lparr>Text = [], ThoughtSignature = [], FunctionCall = None,
          FunctionResponse = Some \<lparr>fr_ID = ''1'', fr_Name = ''x'', fr_Response = []\<rparr>\<rparr>]\<rparr>], 2)"
  by code_simp

text \<open>
  C3. The claim has an identifier taken from the global queue removed from both queues.
  The code removes it from the global queue and from the queue of the response's name,
  which is empty in this branch, so the identifier stays in the queue of the call's name:
  after the call \<open>x\<close> with identifier \<open>1\<close>, the responses named \<open>y\<close> and \<open>x\<close> both
  receive \<open>1\<close>.
\<close>

theorem ensureFunctionResponseIDs_reuses_id:
  "ensureFunctionResponseIDs
     [\<lparr>Role = ''model'', Parts =
        [\<lparr>Text = [], ThoughtSignature = [],
          FunctionCall = Some \<lparr>fc_ID = ''1'', fc_Name = ''x'', fc_Args = []\<rparr>, FunctionResponse = None\<rparr>]\<rparr>,
      \<lparr>Role = ''user'', Parts =
        [\<lparr>Text = [], ThoughtSignature = [], FunctionCall = None,
          FunctionResponse = Some \<lparr>fr_ID = [], fr_Name = ''y'', fr_Response = []\<rparr>\<rparr>,
         \<lparr>Text = [], ThoughtSignature = [], FunctionCall = None,
          FunctionResponse = Some \<lparr>fr_ID = [], fr_Name = ''x'', fr_Response = []\<rparr>\<rparr>]\<rparr>]
   = ([\<lparr>Role = ''model'', Parts =
        [\<lparr>Text = [], ThoughtSignature = [],
          FunctionCall = Some \<lparr>fc_ID = ''1'', fc_Name = ''x'', fc_Args = []\<rparr>, FunctionResponse = None\<rparr>]\<rparr>,
      \<lparr>Role = ''user'', Parts =
        [\<lparr>Text = [], ThoughtSignature = [], FunctionCall = None,
          FunctionResponse = Some \<lparr>fr_ID = ''1'', fr_Name = ''y'', fr_Response = []\<rparr>\<rparr>,
         \<lparr>Text = [], ThoughtSignature = [], FunctionCall = None,
          FunctionResponse = Some \<lparr>fr_ID = ''1'', fr_Name = ''x'', fr_Response = []\<rparr>\<rparr>]\<rparr>], 2)"
  by code_simp

section \<open>Properties of the event transformer\<close>

lemma lookup_set_key: "lookup (set_key k v m) k' = (if k' = k then Some v else lookup m k')"
  by (induction k v m rule: set_key.induct) auto

lemma lookup_copy_into:
  "distinct (map fst src) \<Longrightarrow>
   lookup (copy_into src dst) k = (case lookup src k of Some v \<Rightarrow> Some v | None \<Rightarrow> lookup dst k)"
proof (induction src arbitrary: dst)
  case Nil
  show ?case by simp
next
  case (Cons kv src)
  obtain k' v' where kv: "kv = (k', v')" by (cases kv)
  from Cons.prems kv have d: "distinct (map fst src)" and n: "k' \<notin> fst ` set src" by auto
  from n have "lookup src k' = None"
    by (induction src) auto
  with Cons.IH [OF d, of "set_key k' v' dst"] kv show ?case
    by (auto simp: lookup_set_key split: option.splits)
qed

lemma lookup_filter_ne:
  "lookup (filter (\<lambda>kv. fst kv \<noteq> r) m) k = (if k = r then None else lookup m k)"
  by (induction m) auto

lemma unwrap_nested:
  assumes "lookup outer ''response'' = Some (JObj nested)"
    and "distinct (map fst outer)" and "distinct (map fst nested)"
  shows "\<exists>merged. unwrapCloudCodeResponse (Some outer) = Some merged \<and>
     (\<forall>k. lookup merged k =
        (case lookup nested k of
           Some v \<Rightarrow> Some v
         | None \<Rightarrow> if k = ''response'' then None else lookup outer k))"
proof -
  let ?base = "copy_into (filter (\<lambda>kv. fst kv \<noteq> ''response'') outer) []"
  have "distinct (map fst (filter (\<lambda>kv. fst kv \<noteq> ''response'') outer))"
    using assms(2) by (rule distinct_map_filter)
  then have base: "lookup ?base k = (if k = ''response'' then None else lookup outer k)" for k
    by (simp add: lookup_copy_into lookup_filter_ne split: option.splits)
  have "lookup (copy_into nested ?base) k =
      (case lookup nested k of
         Some v \<Rightarrow> Some v
       | None \<Rightarrow> if k = ''response'' then None else lookup outer k)" for k
    using assms(3) by (simp add: lookup_copy_into base split: option.splits)
  with assms(1) show ?thesis
    by (simp add: unwrapCloudCodeResponse_def)
qed

text \<open>
  C5. \<open>TransformSSELine\<close> returns a line without the prefix \<open>data: \<close> as it is, and a data
  line whose payload does not parse as it is. For a data line whose payload has a nested
  \<open>response\<close> object it returns \<open>data: \<close> followed by the serialization of the merged
  object: every key of the nested object with the nested value, and every other top-level
  key except \<open>response\<close> with its top-level value. A Go map has each key once. The payload
  \<open>{"a":1,"response":{"a":2,"b":3}}\<close> becomes \<open>{"a":2,"b":3}\<close>.
\<close>

theorem TransformSSELine_unwraps:
  "(\<not> HasPrefix line ''data: '' \<longrightarrow> TransformSSELine Unmarshal Marshal line = line)
   \<and> (HasPrefix line ''data: '' \<and> Unmarshal (TrimPrefix line ''data: '') = Inl err \<longrightarrow>
        TransformSSELine Unmarshal Marshal line = line)
   \<and> (HasPrefix line ''data: '' \<and> Unmarshal (TrimPrefix line ''data: '') = Inr (Some outer) \<and>
      lookup outer ''response'' = Some (JObj nested) \<and>
      distinct (map fst outer) \<and> distinct (map fst nested) \<longrightarrow>
        (\<exists>merged. unwrapCloudCodeResponse (Some outer) = Some merged \<and>
           (\<forall>k. lookup merged k =
             (case lookup nested k of
                Some v \<Rightarrow> Some v
              | None \<Rightarrow> if k = ''response'' then None else lookup outer k)) \<and>
           (\<forall>out. Marshal (Some merged) = Inr out \<longrightarrow>
              TransformSSELine Unmarshal Marshal line = ''data: '' @ out)))
   \<and> unwrapCloudCodeResponse
        (Some [(''a'', JNum 1), (''response'', JObj [(''a'', JNum 2), (''b'', JNum 3)])])
       = Some [(''a'', JNum 2), (''b'', JNum 3)]"
proof (intro conjI impI)
  assume "\<not> HasPrefix line ''data: ''"
  then show "TransformSSELine Unmarshal Marshal line = line"
    by (simp add: TransformSSELine_def)
next
  assume "HasPrefix line ''data: '' \<and> Unmarshal (TrimPrefix line ''data: '') = Inl err"
  then show "TransformSSELine Unmarshal Marshal line = line"
    by (simp add: TransformSSELine_def)
next
  assume a: "HasPrefix line ''data: '' \<and> Unmarshal (TrimPrefix line ''data: '') = Inr (Some outer) \<and>
      lookup outer ''response'' = Some (JObj nested) \<and>
      distinct (map fst outer) \<and> distinct (map fst nested)"
  then obtain merged where m: "unwrapCloudCodeResponse (Some outer) = Some merged"
    and l: "\<forall>k. lookup merged k =
        (case lookup nested k of
           Some v \<Rightarrow> Some v
         | None \<Rightarrow> if k = ''response'' then None else lookup outer k)"
    using unwrap_nested [of outer nested] by blast
  from a m have "\<forall>out. Marshal (Some merged) = Inr out \<longrightarrow>
              TransformSSELine Unmarshal Marshal line = ''data: '' @ out"
    by (simp add: TransformSSELine_def)
  with m l show "\<exists>merged. unwrapCloudCodeResponse (Some outer) = Some merged \<and>
           (\<forall>k. lookup merged k =
             (case lookup nested k of
                Some v \<Rightarrow> Some v
              | None \<Rightarrow> if k = ''response'' then None else lookup outer k)) \<and>
           (\<forall>out. Marshal (Some merged) = Inr out \<longrightarrow>
              TransformSSELine Unmarshal Marshal line = ''data: '' @ out)"
    by blast
next
  show "unwrapCloudCodeResponse
        (Some [(''a'', JNum 1), (''response'', JObj [(''a'', JNum 2), (''b'', JNum 3)])])
       = Some [(''a'', JNum 2), (''b'', JNum 3)]"
    by (simp add: unwrapCloudCodeResponse_def)
qed

theorem TransformSSELine_unwraps_witness:
  \<open>TransformSSELine
     (\<lambda>s. if s = ''{"a":1,"response":{"a":2,"b":3}}''
          then Inr (Some [(''a'', JNum 1), (''response'', JObj [(''a'', JNum 2), (''b'', JNum 3)])])
          else Inl ''invalid character'')
     (\<lambda>m. if m = Some [(''a'', JNum 2), (''b'', JNum 3)] then Inr ''{"a":2,"b":3}''
          else Inl ''unsupported value'')
     ''data: {"a":1,"response":{"a":2,"b":3}}''
   = ''data: {"a":2,"b":3}''\<close>
proof -
  let ?line = \<open>''data: {"a":1,"response":{"a":2,"b":3}}''\<close>
  let ?outer = "[(''a'', JNum 1), (''response'', JObj [(''a'', JNum 2), (''b'', JNum 3)])]"
  let ?nested = "[(''a'', JNum 2), (''b'', JNum 3)]"
  let ?U = \<open>\<lambda>s. if s = ''{"a":1,"response":{"a":2,"b":3}}''
          then Inr (Some ?outer) else Inl ''invalid character''\<close>
  let ?M = \<open>\<lambda>m. if m = Some ?nested then Inr ''{"a":2,"b":3}''
          else Inl ''unsupported value''\<close>
  let ?H = "HasPrefix ?line ''data: '' \<and> ?U (TrimPrefix ?line ''data: '') = Inr (Some ?outer) \<and>
      lookup ?outer ''response'' = Some (JObj ?nested) \<and>
      distinct (map fst ?outer) \<and> distinct (map fst ?nested)"
  let ?E = "\<exists>merged. unwrapCloudCodeResponse (Some ?outer) = Some merged \<and>
      (\<forall>k. lookup merged k =
         (case lookup ?nested k of
            Some v \<Rightarrow> Some v
          | None \<Rightarrow> if k = ''response'' then None else lookup ?outer k)) \<and>
      (\<forall>out. ?M (Some merged) = Inr out \<longrightarrow> TransformSSELine ?U ?M ?line = ''data: '' @ out)"
  note t = TransformSSELine_unwraps [of ?line ?U ?M "''none''" ?outer ?nested]
  have h: ?H
    by (simp add: HasPrefix_def TrimPrefix_def)
  from t have u: "unwrapCloudCodeResponse (Some ?outer) = Some ?nested"
    by (elim conjE)
  from t have "?H \<longrightarrow> ?E"
    by (elim conjE)
  from this h have ?E
    by (rule mp)
  then obtain merged where m: "unwrapCloudCodeResponse (Some ?outer) = Some merged"
    and o: "\<forall>out. ?M (Some merged) = Inr out \<longrightarrow> TransformSSELine ?U ?M ?line = ''data: '' @ out"
    by (elim exE conjE)
  from m u have e: "merged = ?nested" by simp
  from o have \<open>?M (Some merged) = Inr ''{"a":2,"b":3}'' \<longrightarrow>
      TransformSSELine ?U ?M ?line = ''data: '' @ ''{"a":2,"b":3}''\<close>
    by (rule spec)
  with e show ?thesis by simp
qed

section \<open>Properties of schema conversion\<close>

lemma ToUpper_array: "ToUpper up ''array'' = ''ARRAY''"
  by code_simp

lemma ToUpper_number: "ToUpper up ''number'' = ''NUMBER''"
  by code_simp

lemma ToUpper_string: "ToUpper up ''string'' = ''STRING''"
  by code_simp

lemma convert_plain:
  assumes "array_branch input = None"
  shows "convert up input =
     GeminiParameterSchema
       (case lookup input ''type'' of Some (JStr t) \<Rightarrow> ToUpper up t | _ \<Rightarrow> [])
       (case lookup input ''description'' of Some (JStr d) \<Rightarrow> d | _ \<Rightarrow> [])
       (case lookup input ''properties'' of
          Some (JObj p) \<Rightarrow> Some (map (\<lambda>(k, vMap). (k, convert up vMap)) (objects_of p))
        | _ \<Rightarrow> None)
       (case lookup input ''items'' of Some (JObj i) \<Rightarrow> Some (convert up i) | _ \<Rightarrow> None)
       (case lookup input ''required'' of Some (JArr r) \<Rightarrow> strings_of r | _ \<Rightarrow> [])
       (case lookup input ''enum'' of Some (JArr e) \<Rightarrow> strings_of e | _ \<Rightarrow> [])"
  by (subst convert.simps) (simp only: assms option.case)

lemma convert_branch:
  assumes "array_branch input = Some sub"
  shows "convert up input = convert up sub"
  by (subst convert.simps) (simp only: assms option.case)

lemma find_array_type: "find_array subs = Some m \<Longrightarrow> lookup m ''type'' = Some (JStr ''array'')"
  by (induction subs rule: find_array.induct) (auto split: if_splits)

lemma find_array_none:
  "(\<forall>s \<in> set subs. \<forall>m. s = JObj m \<longrightarrow> lookup m ''type'' \<noteq> Some (JStr ''array'')) \<Longrightarrow>
   find_array subs = None"
  by (induction subs rule: find_array.induct) auto

lemma find_array_first:
  "(\<forall>s \<in> set pre. \<forall>m. s = JObj m \<longrightarrow> lookup m ''type'' \<noteq> Some (JStr ''array'')) \<Longrightarrow>
   lookup branch ''type'' = Some (JStr ''array'') \<Longrightarrow>
   find_array (pre @ JObj branch # post) = Some branch"
  by (induction pre rule: find_array.induct) auto

lemma subSchemas_chosen:
  "lookup input ''anyOf'' = Some (JArr subs) \<or>
   ((\<forall>xs. lookup input ''anyOf'' \<noteq> Some (JArr xs)) \<and> lookup input ''oneOf'' = Some (JArr subs)) \<Longrightarrow>
   subSchemas input = Some subs"
  by (auto simp: subSchemas_def split: option.splits json.splits)

lemma array_branch_type:
  "array_branch input = Some sub \<Longrightarrow> lookup sub ''type'' = Some (JStr ''array'')"
  by (auto simp: array_branch_def lookup_set_key split: option.splits json.splits dest: find_array_type)

lemma array_branch_description:
  "array_branch input = Some sub \<Longrightarrow> lookup input ''description'' = Some (JStr d) \<Longrightarrow>
   lookup sub ''description'' = Some (JStr d)"
  by (auto simp: array_branch_def lookup_set_key split: option.splits json.splits)

lemma convert_array_type:
  "lookup input ''type'' = Some (JStr ''array'') \<Longrightarrow> gps_Type (convert up input) = ''ARRAY''"
proof (induction up input rule: convert.induct)
  case (1 up input)
  show ?case
  proof (cases "array_branch input")
    case None
    with "1.prems" show ?thesis
      by (simp add: convert_plain ToUpper_array)
  next
    case (Some sub)
    have "lookup sub ''type'' = Some (JStr ''array'')"
      using Some by (rule array_branch_type)
    with Some have "gps_Type (convert up sub) = ''ARRAY''"
      by (rule "1.IH"(3))
    then show ?thesis
      by (simp add: convert_branch [OF Some])
  qed
qed

lemma convert_description:
  "lookup input ''description'' = Some (JStr d) \<Longrightarrow> gps_Description (convert up input) = d"
proof (induction up input rule: convert.induct)
  case (1 up input)
  show ?case
  proof (cases "array_branch input")
    case None
    with "1.prems" show ?thesis
      by (simp add: convert_plain)
  next
    case (Some sub)
    have "lookup sub ''description'' = Some (JStr d)"
      using Some "1.prems" by (rule array_branch_description)
    with Some have "gps_Description (convert up sub) = d"
      by (rule "1.IH"(3))
    then show ?thesis
      by (simp add: convert_branch [OF Some])
  qed
qed

text \<open>
  C1, as the code has it. When the \<open>anyOf\<close> list (or, when \<open>anyOf\<close> is not a list, the
  \<open>oneOf\<close> list) of a schema has no object of type \<open>array\<close>, \<open>ConvertSchema\<close> does not
  recurse on the first sub-schema: it ignores the list and converts the schema's own
  \<open>type\<close> (upper-cased by \<open>strings.ToUpper\<close>), \<open>description\<close>, \<open>properties\<close>, \<open>items\<close>,
  \<open>required\<close> and \<open>enum\<close>.
\<close>

theorem ConvertSchema_without_array_branch:
  assumes "lookup input ''anyOf'' = Some (JArr subs) \<or>
      ((\<forall>xs. lookup input ''anyOf'' \<noteq> Some (JArr xs)) \<and> lookup input ''oneOf'' = Some (JArr subs))"
    and "\<forall>s \<in> set subs. \<forall>m. s = JObj m \<longrightarrow> lookup m ''type'' \<noteq> Some (JStr ''array'')"
  shows "ConvertSchema up (Some input) =
     Some (GeminiParameterSchema
       (case lookup input ''type'' of Some (JStr t) \<Rightarrow> ToUpper up t | _ \<Rightarrow> [])
       (case lookup input ''description'' of Some (JStr d) \<Rightarrow> d | _ \<Rightarrow> [])
       (case lookup input ''properties'' of
          Some (JObj p) \<Rightarrow> Some (map (\<lambda>(k, vMap). (k, convert up vMap)) (objects_of p))
        | _ \<Rightarrow> None)
       (case lookup input ''items'' of Some (JObj i) \<Rightarrow> Some (convert up i) | _ \<Rightarrow> None)
       (case lookup input ''required'' of Some (JArr r) \<Rightarrow> strings_of r | _ \<Rightarrow> [])
       (case lookup input ''enum'' of Some (JArr e) \<Rightarrow> strings_of e | _ \<Rightarrow> []))"
proof -
  have "array_branch input = None"
    using subSchemas_chosen [OF assms(1)] find_array_none [OF assms(2)]
    by (simp add: array_branch_def)
  then show ?thesis
    by (simp add: ConvertSchema_def convert_plain)
qed

text \<open>
  C1, as stated, fails: for \<open>{anyOf: [{type: string}, {type: number}]}\<close> the result is
  not the conversion of the first sub-schema \<open>{type: string}\<close>. The strings are ASCII, so
  the Unicode mapping is not consulted.
\<close>

theorem ConvertSchema_first_branch_counterexample:
  "ConvertSchema id (Some [(''anyOf'', JArr [JObj [(''type'', JStr ''string'')], JObj [(''type'', JStr ''number'')]])])
     \<noteq> ConvertSchema id (Some [(''type'', JStr ''string'')])"
proof -
  have 1: "array_branch [(''anyOf'', JArr [JObj [(''type'', JStr ''string'')], JObj [(''type'', JStr ''number'')]])] = None"
    by (simp add: array_branch_def subSchemas_def)
  have 2: "array_branch [(''type'', JStr ''string'')] = None"
    by (simp add: array_branch_def subSchemas_def)
  show ?thesis
    by (simp add: ConvertSchema_def convert_plain [OF 1] convert_plain [OF 2] ToUpper_string)
qed

theorem ConvertSchema_without_array_branch_witness:
  "ConvertSchema id (Some [(''description'', JStr ''D''),
       (''anyOf'', JArr [JObj [(''type'', JStr ''string'')], JObj [(''type'', JStr ''number'')]])])
     = Some (GeminiParameterSchema [] ''D'' None None [] [])"
  using ConvertSchema_without_array_branch [where up = id
     and input = "[(''description'', JStr ''D''),
       (''anyOf'', JArr [JObj [(''type'', JStr ''string'')], JObj [(''type'', JStr ''number'')]])]"
     and subs = "[JObj [(''type'', JStr ''string'')], JObj [(''type'', JStr ''number'')]]"]
  by simp

text \<open>
  C2, as the code has it. When the \<open>anyOf\<close> list (or, when \<open>anyOf\<close> is not a list, the
  \<open>oneOf\<close> list) contains an object of type \<open>array\<close>, \<open>ConvertSchema\<close> returns the
  conversion of the first such branch, whatever its position, after storing the parent's
  description in the branch whenever the parent has a string description (a description
  of the branch's own is replaced); without one the branch is converted as it is. The
  result has type \<open>ARRAY\<close>, and the parent's description when the parent has one.
\<close>

theorem ConvertSchema_array_branch:
  assumes "lookup input ''anyOf'' = Some (JArr subs) \<or>
      ((\<forall>xs. lookup input ''anyOf'' \<noteq> Some (JArr xs)) \<and> lookup input ''oneOf'' = Some (JArr subs))"
    and "subs = pre @ JObj branch # post"
    and "\<forall>s \<in> set pre. \<forall>m. s = JObj m \<longrightarrow> lookup m ''type'' \<noteq> Some (JStr ''array'')"
    and "lookup branch ''type'' = Some (JStr ''array'')"
  shows "ConvertSchema up (Some input) =
       ConvertSchema up (Some (case lookup input ''description'' of
          Some (JStr parentDesc) \<Rightarrow> set_key ''description'' (JStr parentDesc) branch
        | _ \<Rightarrow> branch))
     \<and> map_option gps_Type (ConvertSchema up (Some input)) = Some ''ARRAY''
     \<and> (\<forall>parentDesc. lookup input ''description'' = Some (JStr parentDesc) \<longrightarrow>
          map_option gps_Description (ConvertSchema up (Some input)) = Some parentDesc)"
proof -
  let ?sub = "case lookup input ''description'' of
          Some (JStr parentDesc) \<Rightarrow> set_key ''description'' (JStr parentDesc) branch
        | _ \<Rightarrow> branch"
  have "find_array subs = Some branch"
    unfolding assms(2) by (rule find_array_first [OF assms(3,4)])
  with subSchemas_chosen [OF assms(1)] have ab: "array_branch input = Some ?sub"
    by (simp add: array_branch_def split: option.splits json.splits)
  then have c: "convert up input = convert up ?sub"
    by (rule convert_branch)
  have "lookup ?sub ''type'' = Some (JStr ''array'')"
    using ab by (rule array_branch_type)
  then have "gps_Type (convert up ?sub) = ''ARRAY''"
    by (rule convert_array_type)
  then have t: "gps_Type (convert up input) = ''ARRAY''"
    by (simp only: c)
  have d: "gps_Description (convert up input) = parentDesc"
    if "lookup input ''description'' = Some (JStr parentDesc)" for parentDesc
    using that by (rule convert_description)
  from c t d show ?thesis
    by (simp add: ConvertSchema_def)
qed

text \<open>
  C2, as stated, fails: an array branch with the description \<open>own\<close> under a parent with
  the description \<open>D\<close> is converted with the description \<open>D\<close>.
\<close>

theorem ConvertSchema_keeps_branch_description_counterexample:
  "map_option gps_Description (ConvertSchema id (Some
      [(''description'', JStr ''D''),
       (''oneOf'', JArr [JObj [(''type'', JStr ''string'')],
                         JObj [(''type'', JStr ''array''), (''description'', JStr ''own'')]])]))
     = Some ''D''
   \<and> map_option gps_Description (ConvertSchema id (Some
      [(''description'', JStr ''D''),
       (''oneOf'', JArr [JObj [(''type'', JStr ''string'')],
                         JObj [(''type'', JStr ''array''), (''description'', JStr ''own'')]])]))
     \<noteq> Some ''own''"
proof -
  have 1: "array_branch [(''description'', JStr ''D''),
       (''oneOf'', JArr [JObj [(''type'', JStr ''string'')],
                         JObj [(''type'', JStr ''array''), (''description'', JStr ''own'')]])]
     = Some [(''type'', JStr ''array''), (''description'', JStr ''D'')]"
    by (simp add: array_branch_def subSchemas_def)
  have 2: "array_branch [(''type'', JStr ''array''), (''description'', JStr ''D'')] = None"
    by (simp add: array_branch_def subSchemas_def)
  show ?thesis
    by (simp add: ConvertSchema_def convert_branch [OF 1] convert_plain [OF 2])
qed

theorem ConvertSchema_array_branch_witness:
  "ConvertSchema id (Some
      [(''description'', JStr ''D''),
       (''oneOf'', JArr [JObj [(''type'', JStr ''string'')],
                         JObj [(''type'', JStr ''array''), (''items'', JObj [(''type'', JStr ''number'')])]])])
   = Some (GeminiParameterSchema ''ARRAY'' ''D'' None
       (Some (GeminiParameterSchema ''NUMBER'' [] None None [] [])) [] [])"
proof -
  let ?branch = "[(''type'', JStr ''array''), (''items'', JObj [(''type'', JStr ''number'')])]"
  let ?subs = "[JObj [(''type'', JStr ''string'')], JObj ?branch]"
  let ?input = "[(''description'', JStr ''D''), (''oneOf'', JArr ?subs)]"
  have 1: "lookup ?input ''anyOf'' = Some (JArr ?subs) \<or>
      ((\<forall>xs. lookup ?input ''anyOf'' \<noteq> Some (JArr xs)) \<and> lookup ?input ''oneOf'' = Some (JArr ?subs))"
    by simp
  have 2: "?subs = [JObj [(''type'', JStr ''string'')]] @ JObj ?branch # []" by simp
  have 3: "\<forall>s \<in> set [JObj [(''type'', JStr ''string'')]]. \<forall>m. s = JObj m \<longrightarrow> lookup m ''type'' \<noteq> Some (JStr ''array'')"
    by simp
  have 4: "lookup ?branch ''type'' = Some (JStr ''array'')" by simp
  have a: "array_branch [(''type'', JStr ''array''), (''items'', JObj [(''type'', JStr ''number'')]), (''description'', JStr ''D'')] = None"
    by (simp add: array_branch_def subSchemas_def)
  have b: "array_branch [(''type'', JStr ''number'')] = None"
    by (simp add: array_branch_def subSchemas_def)
  have 5: "ConvertSchema id (Some (set_key ''description'' (JStr ''D'') ?branch))
      = Some (GeminiParameterSchema ''ARRAY'' ''D'' None
       (Some (GeminiParameterSchema ''NUMBER'' [] None None [] [])) [] [])"
    by (simp add: ConvertSchema_def convert_plain [OF a] convert_plain [OF b] ToUpper_array ToUpper_number)
  from ConvertSchema_array_branch [where up = id, OF 1 2 3 4] 5 show ?thesis
    by simp
qed

section \<open>Properties of message translation\<close>

lemma ToLower_tool: "ToLower ''tool'' = ''tool''"
  by code_simp

lemma ToLower_assistant: "ToLower ''assistant'' = ''assistant''"
  by code_simp

lemma ToLower_system: "ToLower ''system'' = ''system''"
  by code_simp

lemma tool_call_frame:
  assumes "tool_call U N tc st = (part, st')"
  shows "pendingToolParts st' = pendingToolParts st" "geminiContents st' = geminiContents st"
    "systemInstruction st' = systemInstruction st" "FunctionResponse part = None"
    "tool_call U N tc (st\<lparr>pendingToolParts := q\<rparr>) = (part, st'\<lparr>pendingToolParts := q\<rparr>)"
  using assms by (auto simp: tool_call_def Let_def split: if_splits)

lemma tool_calls_frame:
  "tool_calls U N tcs (parts, st) = (parts', st') \<Longrightarrow>
     pendingToolParts st' = pendingToolParts st \<and> geminiContents st' = geminiContents st \<and>
     systemInstruction st' = systemInstruction st \<and>
     (\<exists>cs. parts' = parts @ cs \<and> (\<forall>p \<in> set cs. FunctionResponse p = None)) \<and>
     tool_calls U N tcs (parts, st\<lparr>pendingToolParts := q\<rparr>) = (parts', st'\<lparr>pendingToolParts := q\<rparr>)"
proof (induction tcs arbitrary: parts st)
  case Nil
  then show ?case by simp
next
  case (Cons tc tcs)
  obtain part st1 where step: "tool_call U N tc st = (part, st1)"
    by (cases "tool_call U N tc st")
  with Cons.prems have rest: "tool_calls U N tcs (parts @ [part], st1) = (parts', st')"
    by simp
  note f = tool_call_frame(1-4) [OF step]
  note f5 = tool_call_frame(5) [OF step, of q]
  note ih = Cons.IH [OF rest]
  from ih obtain cs where cs: "parts' = (parts @ [part]) @ cs" "\<forall>p \<in> set cs. FunctionResponse p = None"
    by blast
  have "parts' = parts @ (part # cs) \<and> (\<forall>p \<in> set (part # cs). FunctionResponse p = None)"
    using cs f(4) by simp
  then have "\<exists>cs. parts' = parts @ cs \<and> (\<forall>p \<in> set cs. FunctionResponse p = None)"
    by blast
  moreover have "tool_calls U N (tc # tcs) (parts, st\<lparr>pendingToolParts := q\<rparr>) = (parts', st'\<lparr>pendingToolParts := q\<rparr>)"
    using f5 ih by simp
  ultimately show ?case
    using ih f(1-3) by simp
qed

lemma content_parts_pending [simp]:
  "content_parts (st\<lparr>pendingToolParts := q\<rparr>) msg = content_parts st msg"
  by (cases "msg_Content msg") (simp_all add: content_parts_def)

lemma content_parts_nontool:
  "msg_Role msg \<noteq> ''tool'' \<Longrightarrow> \<exists>ps. content_parts st msg = Inr ps \<and> (\<forall>p \<in> set ps. FunctionResponse p = None)"
  by (cases "msg_Content msg") (auto simp: content_parts_def text_part_def)

lemma tool_response_part:
  "tool_response names ids msg out = Inr part \<Longrightarrow> FunctionResponse part \<noteq> None"
  by (auto simp: tool_response_def Let_def split: if_splits)

lemma content_parts_tool:
  "msg_Role msg = ''tool'' \<Longrightarrow> content_parts st msg = Inr ps \<Longrightarrow>
   length (filter (\<lambda>p. FunctionResponse p \<noteq> None) ps) = (if text_or_array (msg_Content msg) then 1 else 0)"
  by (cases "msg_Content msg")
    (auto simp: content_parts_def split: sum.splits dest: tool_response_part)

lemma convert_message_nontool:
  assumes "ToLower (msg_Role m) \<noteq> ''tool''" and "convert_message U N m st = Inr st1"
  shows "convert_message U N m (st\<lparr>pendingToolParts := q\<rparr>) = Inr (st1\<lparr>pendingToolParts := q\<rparr>)"
    and "pendingToolParts st1 = pendingToolParts st"
    and "\<exists>cs. geminiContents st1 = geminiContents st @ cs \<and>
           (\<forall>c \<in> set cs. \<forall>p \<in> set (Parts c). FunctionResponse p = None)"
proof -
  from assms(1) have r: "msg_Role m \<noteq> ''tool''"
    using ToLower_tool by auto
  show "convert_message U N m (st\<lparr>pendingToolParts := q\<rparr>) = Inr (st1\<lparr>pendingToolParts := q\<rparr>)"
    and "pendingToolParts st1 = pendingToolParts st"
    and "\<exists>cs. geminiContents st1 = geminiContents st @ cs \<and>
           (\<forall>c \<in> set cs. \<forall>p \<in> set (Parts c). FunctionResponse p = None)"
  proof (atomize (full), cases "msg_Role m = ''system''")
    case True
    with assms(2) show "convert_message U N m (st\<lparr>pendingToolParts := q\<rparr>) = Inr (st1\<lparr>pendingToolParts := q\<rparr>)
      \<and> pendingToolParts st1 = pendingToolParts st
      \<and> (\<exists>cs. geminiContents st1 = geminiContents st @ cs \<and>
           (\<forall>c \<in> set cs. \<forall>p \<in> set (Parts c). FunctionResponse p = None))"
      by (auto simp: convert_message_def)
  next
    case False
    obtain ps where ps: "content_parts st m = Inr ps" "\<forall>p \<in> set ps. FunctionResponse p = None"
      using content_parts_nontool [OF r] by blast
    obtain parts1 st' where tc: "(if msg_Role m = ''assistant'' \<and> msg_ToolCalls m \<noteq> []
                      then tool_calls U N (msg_ToolCalls m) (ps, st)
                      else (ps, st)) = (parts1, st')"
      by (cases "(if msg_Role m = ''assistant'' \<and> msg_ToolCalls m \<noteq> []
                      then tool_calls U N (msg_ToolCalls m) (ps, st)
                      else (ps, st))")
    have fr: "pendingToolParts st' = pendingToolParts st \<and> geminiContents st' = geminiContents st \<and>
        (\<forall>p \<in> set parts1. FunctionResponse p = None) \<and>
        (if msg_Role m = ''assistant'' \<and> msg_ToolCalls m \<noteq> []
                      then tool_calls U N (msg_ToolCalls m) (ps, st\<lparr>pendingToolParts := q\<rparr>)
                      else (ps, st\<lparr>pendingToolParts := q\<rparr>)) = (parts1, st'\<lparr>pendingToolParts := q\<rparr>)"
    proof (cases "msg_Role m = ''assistant'' \<and> msg_ToolCalls m \<noteq> []")
      case True
      with tc have "tool_calls U N (msg_ToolCalls m) (ps, st) = (parts1, st')" by simp
      from tool_calls_frame [OF this, of q] ps(2) True show ?thesis by auto
    next
      case False
      with tc ps(2) show ?thesis by auto
    qed
    from assms(1,2) False ps tc fr
    show "convert_message U N m (st\<lparr>pendingToolParts := q\<rparr>) = Inr (st1\<lparr>pendingToolParts := q\<rparr>)
      \<and> pendingToolParts st1 = pendingToolParts st
      \<and> (\<exists>cs. geminiContents st1 = geminiContents st @ cs \<and>
           (\<forall>c \<in> set cs. \<forall>p \<in> set (Parts c). FunctionResponse p = None))"
      by (auto simp: convert_message_def Let_def split: if_splits)
  qed
qed


lemma convert_message_tool:
  assumes "ToLower (msg_Role m) = ''tool''" and "convert_message U N m st = Inr st1"
  shows "\<exists>ps. st1 = st\<lparr>pendingToolParts := pendingToolParts st @ ps\<rparr> \<and>
     length (filter (\<lambda>p. FunctionResponse p \<noteq> None) ps) =
       (if msg_Role m = ''tool'' \<and> text_or_array (msg_Content m) then 1 else 0)"
proof -
  from assms(1) have ns: "msg_Role m \<noteq> ''system''" and na: "msg_Role m \<noteq> ''assistant''"
    using ToLower_system ToLower_assistant by auto
  from assms(2) ns obtain ps where ps: "content_parts st m = Inr ps"
    by (auto simp: convert_message_def split: sum.splits)
  have n: "length (filter (\<lambda>p. FunctionResponse p \<noteq> None) ps) =
       (if msg_Role m = ''tool'' \<and> text_or_array (msg_Content m) then 1 else 0)"
  proof (cases "msg_Role m = ''tool''")
    case True
    with content_parts_tool [OF True ps] show ?thesis by simp
  next
    case False
    with content_parts_nontool [OF False, of st] ps show ?thesis by auto
  qed
  have "st1 = st\<lparr>pendingToolParts := pendingToolParts st @ ps\<rparr>"
    using assms ns na ps by (auto simp: convert_message_def Let_def split: if_splits)
  with n show ?thesis by blast
qed

lemma convert_loop_deferred:
  "convert_loop U N ms st = Inr st' \<Longrightarrow>
   \<exists>body pend.
     convert_loop U N (filter (\<lambda>m. ToLower (msg_Role m) \<noteq> ''tool'') ms) (st\<lparr>pendingToolParts := q\<rparr>)
       = Inr (st'\<lparr>pendingToolParts := q\<rparr>) \<and>
     pendingToolParts st' = pendingToolParts st @ pend \<and>
     geminiContents st' = geminiContents st @ body \<and>
     (\<forall>c \<in> set body. \<forall>p \<in> set (Parts c). FunctionResponse p = None) \<and>
     length (filter (\<lambda>p. FunctionResponse p \<noteq> None) pend) =
       length (filter (\<lambda>m. msg_Role m = ''tool'' \<and> text_or_array (msg_Content m)) ms)"
proof (induction ms arbitrary: st)
  case Nil
  then show ?case by auto
next
  case (Cons m ms)
  from Cons.prems obtain st1 where step: "convert_message U N m st = Inr st1"
    and rest: "convert_loop U N ms st1 = Inr st'"
    by (auto split: sum.splits)
  from Cons.IH [OF rest] obtain body pend where
    ih: "convert_loop U N (filter (\<lambda>m. ToLower (msg_Role m) \<noteq> ''tool'') ms) (st1\<lparr>pendingToolParts := q\<rparr>)
       = Inr (st'\<lparr>pendingToolParts := q\<rparr>)"
      "pendingToolParts st' = pendingToolParts st1 @ pend"
      "geminiContents st' = geminiContents st1 @ body"
      "\<forall>c \<in> set body. \<forall>p \<in> set (Parts c). FunctionResponse p = None"
      "length (filter (\<lambda>p. FunctionResponse p \<noteq> None) pend) =
       length (filter (\<lambda>m. msg_Role m = ''tool'' \<and> text_or_array (msg_Content m)) ms)"
    by blast
  show ?case
  proof (cases "ToLower (msg_Role m) = ''tool''")
    case True
    from convert_message_tool [OF True step] obtain ps where
      ps: "st1 = st\<lparr>pendingToolParts := pendingToolParts st @ ps\<rparr>"
        "length (filter (\<lambda>p. FunctionResponse p \<noteq> None) ps) =
          (if msg_Role m = ''tool'' \<and> text_or_array (msg_Content m) then 1 else 0)"
      by blast
    from ps(1) have "st1\<lparr>pendingToolParts := q\<rparr> = st\<lparr>pendingToolParts := q\<rparr>"
      by simp
    with ih(1) True have 1: "convert_loop U N (filter (\<lambda>m. ToLower (msg_Role m) \<noteq> ''tool'') (m # ms))
        (st\<lparr>pendingToolParts := q\<rparr>) = Inr (st'\<lparr>pendingToolParts := q\<rparr>)"
      by simp
    from ih(2) ps(1) have 2: "pendingToolParts st' = pendingToolParts st @ (ps @ pend)"
      by simp
    from ih(3) ps(1) have 3: "geminiContents st' = geminiContents st @ body"
      by simp
    from ih(5) ps(2) have 5: "length (filter (\<lambda>p. FunctionResponse p \<noteq> None) (ps @ pend)) =
       length (filter (\<lambda>m. msg_Role m = ''tool'' \<and> text_or_array (msg_Content m)) (m # ms))"
      by simp
    from 1 2 3 ih(4) 5 show ?thesis by blast
  next
    case False
    note f = convert_message_nontool(2,3) [OF False step]
    note f1 = convert_message_nontool(1) [OF False step, of q]
    from f(2) obtain cs where cs: "geminiContents st1 = geminiContents st @ cs"
      "\<forall>c \<in> set cs. \<forall>p \<in> set (Parts c). FunctionResponse p = None"
      by blast
    from ih(1) f1 False have 1: "convert_loop U N (filter (\<lambda>m. ToLower (msg_Role m) \<noteq> ''tool'') (m # ms))
        (st\<lparr>pendingToolParts := q\<rparr>) = Inr (st'\<lparr>pendingToolParts := q\<rparr>)"
      by simp
    from ih(2) f(1) have 2: "pendingToolParts st' = pendingToolParts st @ pend"
      by simp
    from ih(3) cs(1) have 3: "geminiContents st' = geminiContents st @ (cs @ body)"
      by simp
    from ih(4) cs(2) have 4: "\<forall>c \<in> set (cs @ body). \<forall>p \<in> set (Parts c). FunctionResponse p = None"
      by auto
    from False ToLower_tool have "msg_Role m \<noteq> ''tool''" by auto
    with ih(5) have 5: "length (filter (\<lambda>p. FunctionResponse p \<noteq> None) pend) =
       length (filter (\<lambda>m. msg_Role m = ''tool'' \<and> text_or_array (msg_Content m)) (m # ms))"
      by simp
    from 1 2 3 4 5 show ?thesis by blast
  qed
qed

lemma prepass_filter:
  "prepass (filter (\<lambda>m. ToLower (msg_Role m) \<noteq> ''tool'') ms) names = prepass ms names"
  using ToLower_assistant by (induction ms arbitrary: names) auto

text \<open>
  C9. When translation succeeds, the contents are those of the message list without its
  tool messages, followed, when there are tool parts, by one user content that holds
  them all. No content before it carries a function response, and the last content has
  one function response for every tool message whose content is a string or an array.
\<close>

theorem tool_responses_trail:
  assumes "convertMessagesToGeminiContents U N messages = Inr (contents, si)"
  shows "\<exists>body pend.
     contents = body @ (if pend = [] then [] else [\<lparr>Role = ''user'', Parts = pend\<rparr>]) \<and>
     convertMessagesToGeminiContents U N (filter (\<lambda>m. ToLower (msg_Role m) \<noteq> ''tool'') messages)
       = Inr (body, si) \<and>
     (\<forall>c \<in> set body. \<forall>p \<in> set (Parts c). FunctionResponse p = None) \<and>
     length (filter (\<lambda>p. FunctionResponse p \<noteq> None) pend) =
       length (filter (\<lambda>m. msg_Role m = ''tool'' \<and> text_or_array (msg_Content m)) messages)"
proof -
  let ?st0 = "\<lparr>toolCallNameByID = prepass messages Map.empty, toolCallIDByName = Map.empty,
              pendingToolParts = [], geminiContents = [], systemInstruction = None, uuids = 0\<rparr>"
  from assms obtain st' where run: "convert_loop U N messages ?st0 = Inr st'"
    and c: "contents = (if pendingToolParts st' \<noteq> []
               then geminiContents st' @ [\<lparr>Role = ''user'', Parts = pendingToolParts st'\<rparr>]
               else geminiContents st')"
    and s: "si = systemInstruction st'"
    by (auto simp: convertMessagesToGeminiContents_def split: sum.splits)
  from convert_loop_deferred [OF run, of "[]"] obtain body pend where
    d: "convert_loop U N (filter (\<lambda>m. ToLower (msg_Role m) \<noteq> ''tool'') messages) ?st0
       = Inr (st'\<lparr>pendingToolParts := []\<rparr>)"
      "pendingToolParts st' = pend"
      "geminiContents st' = body"
      "\<forall>c \<in> set body. \<forall>p \<in> set (Parts c). FunctionResponse p = None"
      "length (filter (\<lambda>p. FunctionResponse p \<noteq> None) pend) =
       length (filter (\<lambda>m. msg_Role m = ''tool'' \<and> text_or_array (msg_Content m)) messages)"
    by auto
  from c d(2,3) have 1: "contents = body @ (if pend = [] then [] else [\<lparr>Role = ''user'', Parts = pend\<rparr>])"
    by simp
  from d(1,3) s have 2: "convertMessagesToGeminiContents U N (filter (\<lambda>m. ToLower (msg_Role m) \<noteq> ''tool'') messages)
       = Inr (body, si)"
    by (simp add: convertMessagesToGeminiContents_def prepass_filter)
  from 1 2 d(4,5) show ?thesis by blast
qed

theorem tool_responses_trail_witness:
  "\<exists>body pend.
     [\<lparr>Role = ''user'', Parts = [text_part ''hi'']\<rparr>,
      \<lparr>Role = ''model'', Parts = [\<lparr>Text = [], ThoughtSignature = [],
         FunctionCall = Some \<lparr>fc_ID = ''c1'', fc_Name = ''f'', fc_Args = []\<rparr>, FunctionResponse = None\<rparr>]\<rparr>,
      \<lparr>Role = ''user'', Parts = [text_part ''next'']\<rparr>,
      \<lparr>Role = ''user'', Parts = [\<lparr>Text = [], ThoughtSignature = [], FunctionCall = None,
         FunctionResponse = Some \<lparr>fr_ID = ''c1'', fr_Name = ''f'', fr_Response = [(''output'', JStr ''out'')]\<rparr>\<rparr>]\<rparr>]
       = body @ (if pend = [] then [] else [\<lparr>Role = ''user'', Parts = pend\<rparr>]) \<and>
     convertMessagesToGeminiContents (\<lambda>s. Inr (Some [])) (\<lambda>n. ''0'')
       (filter (\<lambda>m. ToLower (msg_Role m) \<noteq> ''tool'')
         [\<lparr>msg_Role = ''user'', msg_Content = JStr ''hi'', msg_Name = [], msg_ToolCallID = [], msg_ToolCalls = []\<rparr>,
          \<lparr>msg_Role = ''assistant'', msg_Content = JNull, msg_Name = [], msg_ToolCallID = [],
            msg_ToolCalls = [\<lparr>tc_ID = ''c1'', tc_Name = ''f'', tc_Arguments = ''{}''\<rparr>]\<rparr>,
          \<lparr>msg_Role = ''tool'', msg_Content = JStr ''out'', msg_Name = [], msg_ToolCallID = ''c1'', msg_ToolCalls = []\<rparr>,
          \<lparr>msg_Role = ''user'', msg_Content = JStr ''next'', msg_Name = [], msg_ToolCallID = [], msg_ToolCalls = []\<rparr>])
       = Inr (body, None) \<and>
     (\<forall>c \<in> set body. \<forall>p \<in> set (Parts c). FunctionResponse p = None) \<and>
     length (filter (\<lambda>p. FunctionResponse p \<noteq> None) pend) =
       length (filter (\<lambda>m. msg_Role m = ''tool'' \<and> text_or_array (msg_Content m))
         [\<lparr>msg_Role = ''user'', msg_Content = JStr ''hi'', msg_Name = [], msg_ToolCallID = [], msg_ToolCalls = []\<rparr>,
          \<lparr>msg_Role = ''assistant'', msg_Content = JNull, msg_Name = [], msg_ToolCallID = [],
            msg_ToolCalls = [\<lparr>tc_ID = ''c1'', tc_Name = ''f'', tc_Arguments = ''{}''\<rparr>]\<rparr>,
          \<lparr>msg_Role = ''tool'', msg_Content = JStr ''out'', msg_Name = [], msg_ToolCallID = ''c1'', msg_ToolCalls = []\<rparr>,
          \<lparr>msg_Role = ''user'', msg_Content = JStr ''next'', msg_Name = [], msg_ToolCallID = [], msg_ToolCalls = []\<rparr>])"
proof -
  have "convertMessagesToGeminiContents (\<lambda>s. Inr (Some [])) (\<lambda>n. ''0'')
     [\<lparr>msg_Role = ''user'', msg_Content = JStr ''hi'', msg_Name = [], msg_ToolCallID = [], msg_ToolCalls = []\<rparr>,
      \<lparr>msg_Role = ''assistant'', msg_Content = JNull, msg_Name = [], msg_ToolCallID = [],
        msg_ToolCalls = [\<lparr>tc_ID = ''c1'', tc_Name = ''f'', tc_Arguments = ''{}''\<rparr>]\<rparr>,
      \<lparr>msg_Role = ''tool'', msg_Content = JStr ''out'', msg_Name = [], msg_ToolCallID = ''c1'', msg_ToolCalls = []\<rparr>,
      \<lparr>msg_Role = ''user'', msg_Content = JStr ''next'', msg_Name = [], msg_ToolCallID = [], msg_ToolCalls = []\<rparr>]
   = Inr ([\<lparr>Role = ''user'', Parts = [text_part ''hi'']\<rparr>,
           \<lparr>Role = ''model'', Parts = [\<lparr>Text = [], ThoughtSignature = [],
              FunctionCall = Some \<lparr>fc_ID = ''c1'', fc_Name = ''f'', fc_Args = []\<rparr>, FunctionResponse = None\<rparr>]\<rparr>,
           \<lparr>Role = ''user'', Parts = [text_part ''next'']\<rparr>,
           \<lparr>Role = ''user'', Parts = [\<lparr>Text = [], ThoughtSignature = [], FunctionCall = None,
              FunctionResponse = Some \<lparr>fr_ID = ''c1'', fr_Name = ''f'', fr_Response = [(''output'', JStr ''out'')]\<rparr>\<rparr>]\<rparr>],
          None)"
    by code_simp
  then show ?thesis
    by (rule tool_responses_trail)
qed

lemma TrimSpace_Nil: "TrimSpace [] = []"
  by (simp add: TrimSpace_def)

lemma prepass_calls_dom:
  "dom (prepass_calls tcs names) =
     dom names \<union> set (map tc_ID (filter (\<lambda>tc. tc_ID tc \<noteq> [] \<and> tc_Name tc \<noteq> []) tcs))"
  by (induction tcs arbitrary: names) auto

lemma prepass_calls_nonempty:
  "(\<forall>k. names k \<noteq> Some []) \<Longrightarrow> prepass_calls tcs names k \<noteq> Some []"
  by (induction tcs arbitrary: names) auto

lemma prepass_dom: "dom (prepass ms names) = dom names \<union> set (recorded_ids ms)"
  by (induction ms arbitrary: names) (auto simp: recorded_ids_def prepass_calls_dom)

lemma prepass_nonempty: "(\<forall>k. names k \<noteq> Some []) \<Longrightarrow> prepass ms names k \<noteq> Some []"
  by (induction ms arbitrary: names) (auto simp: prepass_calls_nonempty)

lemma names_ok_prepass: "names_ok messages N (prepass messages Map.empty)"
  by (simp add: names_ok_def prepass_dom prepass_nonempty)

lemma recorded_ids_mem:
  "m \<in> set messages \<Longrightarrow> msg_Role m = ''assistant'' \<Longrightarrow> tc \<in> set (msg_ToolCalls m) \<Longrightarrow>
   tc_ID tc \<noteq> [] \<Longrightarrow> tc_Name tc \<noteq> [] \<Longrightarrow> tc_ID tc \<in> set (recorded_ids messages)"
  by (auto simp: recorded_ids_def)

lemma recorded_ids_nonempty: "[] \<notin> set (recorded_ids messages)"
  by (auto simp: recorded_ids_def)

lemma tool_call_names_ok:
  assumes "tool_call U N tc st = (part, st')" and "names_ok messages N (toolCallNameByID st)"
    and "m \<in> set messages" and "msg_Role m = ''assistant''" and "tc \<in> set (msg_ToolCalls m)"
  shows "names_ok messages N (toolCallNameByID st')"
proof (cases "tc_Name tc = []")
  case True
  with assms(1,2) show ?thesis
    by (auto simp: tool_call_def Let_def split: if_splits)
next
  case False
  show ?thesis
  proof (cases "TrimSpace (tc_ID tc) = []")
    case True
    with False assms(1) have "toolCallNameByID st' =
        (toolCallNameByID st)(''toolu_'' @ N (uuids st) \<mapsto> tc_Name tc)"
      by (auto simp: tool_call_def Let_def)
    with False assms(2) show ?thesis
      by (auto simp: names_ok_def)
  next
    case t: False
    then have ne: "tc_ID tc \<noteq> []"
      using TrimSpace_Nil by auto
    from t False assms(1) have "toolCallNameByID st' = (toolCallNameByID st)(tc_ID tc \<mapsto> tc_Name tc)"
      by (auto simp: tool_call_def Let_def)
    moreover have "tc_ID tc \<in> set (recorded_ids messages)"
      using assms(3,4,5) ne False by (rule recorded_ids_mem)
    ultimately show ?thesis
      using False assms(2) by (auto simp: names_ok_def)
  qed
qed

lemma tool_calls_names_ok:
  "tool_calls U N tcs (parts, st) = (parts', st') \<Longrightarrow> names_ok messages N (toolCallNameByID st) \<Longrightarrow>
   m \<in> set messages \<Longrightarrow> msg_Role m = ''assistant'' \<Longrightarrow> set tcs \<subseteq> set (msg_ToolCalls m) \<Longrightarrow>
   names_ok messages N (toolCallNameByID st')"
proof (induction tcs arbitrary: parts st)
  case Nil
  then show ?case by simp
next
  case (Cons tc tcs)
  obtain part st1 where step: "tool_call U N tc st = (part, st1)"
    by (cases "tool_call U N tc st")
  with Cons.prems(1) have rest: "tool_calls U N tcs (parts @ [part], st1) = (parts', st')"
    by simp
  from Cons.prems(5) have tc: "tc \<in> set (msg_ToolCalls m)" and sub: "set tcs \<subseteq> set (msg_ToolCalls m)"
    by auto
  have "names_ok messages N (toolCallNameByID st1)"
    using step Cons.prems(2,3,4) tc by (rule tool_call_names_ok)
  with rest show ?case
    using Cons.prems(3,4) sub by (rule Cons.IH)
qed

lemma tool_response_error:
  assumes "names_ok messages N names" and "\<forall>n. msg_ToolCallID msg \<noteq> ''toolu_'' @ N n"
  shows "(\<exists>err. tool_response names ids msg out = Inl err) \<longleftrightarrow>
     msg_Name msg = [] \<and> msg_ToolCallID msg \<notin> set (recorded_ids messages)"
proof (cases "msg_Name msg = []")
  case False
  then show ?thesis
    by (simp add: tool_response_def Let_def)
next
  case True
  show ?thesis
  proof (cases "msg_ToolCallID msg \<in> set (recorded_ids messages)")
    case r: True
    with assms(1) obtain n where n: "names (msg_ToolCallID msg) = Some n" "n \<noteq> []"
      by (fastforce simp: names_ok_def)
    from r have "msg_ToolCallID msg \<noteq> []"
      using recorded_ids_nonempty by metis
    with True n r show ?thesis
      by (simp add: tool_response_def Let_def)
  next
    case r: False
    with assms have "names (msg_ToolCallID msg) = None"
      by (fastforce simp: names_ok_def)
    with True r show ?thesis
      by (simp add: tool_response_def Let_def)
  qed
qed

lemma content_parts_error:
  assumes "names_ok messages N (toolCallNameByID st)" and "\<forall>n. msg_ToolCallID msg \<noteq> ''toolu_'' @ N n"
  shows "(\<exists>err. content_parts st msg = Inl err) \<longleftrightarrow>
     msg_Role msg = ''tool'' \<and> text_or_array (msg_Content msg) \<and>
     msg_Name msg = [] \<and> msg_ToolCallID msg \<notin> set (recorded_ids messages)"
proof (cases "msg_Role msg = ''tool'' \<and> text_or_array (msg_Content msg)")
  case False
  then show ?thesis
    by (cases "msg_Content msg") (auto simp: content_parts_def)
next
  case True
  then obtain out where "content_parts st msg =
      (case tool_response (toolCallNameByID st) (toolCallIDByName st) msg out of
         Inl err \<Rightarrow> Inl err | Inr part \<Rightarrow> Inr [part])"
    by (cases "msg_Content msg") (auto simp: content_parts_def)
  then have "(\<exists>err. content_parts st msg = Inl err) \<longleftrightarrow>
      (\<exists>err. tool_response (toolCallNameByID st) (toolCallIDByName st) msg out = Inl err)"
    by (auto split: sum.splits)
  with True tool_response_error [OF assms, of "toolCallIDByName st" out] show ?thesis
    by simp
qed

lemma convert_message_error:
  assumes "names_ok messages N (toolCallNameByID st)" and "\<forall>n. msg_ToolCallID msg \<noteq> ''toolu_'' @ N n"
  shows "(\<exists>err. convert_message U N msg st = Inl err) \<longleftrightarrow>
     msg_Role msg = ''tool'' \<and> text_or_array (msg_Content msg) \<and>
     msg_Name msg = [] \<and> msg_ToolCallID msg \<notin> set (recorded_ids messages)"
proof (cases "msg_Role msg = ''system''")
  case True
  then show ?thesis
    by (simp add: convert_message_def)
next
  case False
  then have "(\<exists>err. convert_message U N msg st = Inl err) \<longleftrightarrow> (\<exists>err. content_parts st msg = Inl err)"
    by (auto simp: convert_message_def Let_def split: sum.splits prod.splits)
  with content_parts_error [OF assms] show ?thesis
    by simp
qed

lemma convert_message_names_ok:
  assumes "convert_message U N msg st = Inr st1" and "names_ok messages N (toolCallNameByID st)"
    and "msg \<in> set messages"
  shows "names_ok messages N (toolCallNameByID st1)"
proof (cases "msg_Role msg = ''assistant'' \<and> msg_ToolCalls msg \<noteq> []")
  case False
  with assms(1,2) show ?thesis
    by (auto simp: convert_message_def Let_def split: sum.splits if_splits)
next
  case True
  then have ns: "msg_Role msg \<noteq> ''system''" by auto
  from assms(1) ns obtain ps where ps: "content_parts st msg = Inr ps"
    by (auto simp: convert_message_def split: sum.splits)
  obtain parts1 st' where tc: "tool_calls U N (msg_ToolCalls msg) (ps, st) = (parts1, st')"
    by (cases "tool_calls U N (msg_ToolCalls msg) (ps, st)")
  have ok: "names_ok messages N (toolCallNameByID st')"
    using tc assms(2,3) True by (auto intro: tool_calls_names_ok)
  from assms(1) ns ps tc True have "toolCallNameByID st1 = toolCallNameByID st'"
    by (auto simp: convert_message_def Let_def split: if_splits)
  with ok show ?thesis by simp
qed

lemma convert_loop_error:
  "names_ok messages N (toolCallNameByID st) \<Longrightarrow> set ms \<subseteq> set messages \<Longrightarrow>
   \<forall>m \<in> set messages. \<forall>n. msg_ToolCallID m \<noteq> ''toolu_'' @ N n \<Longrightarrow>
   (\<exists>err. convert_loop U N ms st = Inl err) \<longleftrightarrow>
     (\<exists>m \<in> set ms. msg_Role m = ''tool'' \<and> text_or_array (msg_Content m) \<and>
        msg_Name m = [] \<and> msg_ToolCallID m \<notin> set (recorded_ids messages))"
proof (induction ms arbitrary: st)
  case Nil
  show ?case by simp
next
  case (Cons m ms)
  from Cons.prems(2) have mem: "m \<in> set messages" and sub: "set ms \<subseteq> set messages"
    by auto
  from Cons.prems(3) mem have fresh: "\<forall>n. msg_ToolCallID m \<noteq> ''toolu_'' @ N n"
    by blast
  note e = convert_message_error [OF Cons.prems(1) fresh, of U]
  show ?case
  proof (cases "convert_message U N m st")
    case (Inl err)
    with e show ?thesis by auto
  next
    case (Inr st1)
    have "names_ok messages N (toolCallNameByID st1)"
      using Inr Cons.prems(1) mem by (rule convert_message_names_ok)
    from Cons.IH [OF this sub Cons.prems(3)] Inr e show ?thesis
      by auto
  qed
qed

lemma tool_message_other_content:
  assumes "msg_Role m = ''tool''" and "\<not> text_or_array (msg_Content m)"
  shows "convert_message U N m st = Inr st"
proof -
  from assms(2) have "content_parts st m = Inr []"
    by (cases "msg_Content m") (simp_all add: content_parts_def)
  with assms(1) show ?thesis
    by (simp add: convert_message_def)
qed

lemma tool_response_name:
  "(msg_Name msg \<noteq> [] \<longrightarrow>
      (\<exists>part fr. tool_response names ids msg out = Inr part \<and> FunctionResponse part = Some fr \<and>
         fr_Name fr = msg_Name msg)) \<and>
   (msg_Name msg = [] \<and> msg_ToolCallID msg \<noteq> [] \<and> names (msg_ToolCallID msg) = Some n \<and> n \<noteq> [] \<longrightarrow>
      (\<exists>part fr. tool_response names ids msg out = Inr part \<and> FunctionResponse part = Some fr \<and>
         fr_Name fr = n))"
  by (simp add: tool_response_def Let_def)

text \<open>
  C8, as the code has it. Translation fails exactly when some message with the role
  \<open>tool\<close> whose content is a string or an array has neither a name of its own nor a
  \<open>tool_call_id\<close> for which a function name is recorded; a tool message with any other
  content (such as \<open>null\<close>) yields no part and no error. The identifiers the translator
  generates are taken to differ from every \<open>tool_call_id\<close> of the input. The name of the
  response is the message's own name when it has one, else the recorded one.
\<close>

theorem missing_function_name_error:
  assumes "\<forall>m \<in> set messages. \<forall>n. msg_ToolCallID m \<noteq> ''toolu_'' @ N n"
  shows "((\<exists>err. convertMessagesToGeminiContents U N messages = Inl err) \<longleftrightarrow>
     (\<exists>m \<in> set messages. msg_Role m = ''tool'' \<and> text_or_array (msg_Content m) \<and>
        msg_Name m = [] \<and> msg_ToolCallID m \<notin> set (recorded_ids messages)))
   \<and> (msg_Name msg \<noteq> [] \<longrightarrow>
      (\<exists>part fr. tool_response names ids msg out = Inr part \<and> FunctionResponse part = Some fr \<and>
         fr_Name fr = msg_Name msg))
   \<and> (msg_Name msg = [] \<and> msg_ToolCallID msg \<noteq> [] \<and> names (msg_ToolCallID msg) = Some n \<and> n \<noteq> [] \<longrightarrow>
      (\<exists>part fr. tool_response names ids msg out = Inr part \<and> FunctionResponse part = Some fr \<and>
         fr_Name fr = n))"
proof -
  let ?st0 = "\<lparr>toolCallNameByID = prepass messages Map.empty, toolCallIDByName = Map.empty,
              pendingToolParts = [], geminiContents = [], systemInstruction = None, uuids = 0\<rparr>"
  have "names_ok messages N (toolCallNameByID ?st0)"
    by (simp add: names_ok_prepass)
  from convert_loop_error [OF this subset_refl assms, of U]
  have "(\<exists>err. convert_loop U N messages ?st0 = Inl err) \<longleftrightarrow>
     (\<exists>m \<in> set messages. msg_Role m = ''tool'' \<and> text_or_array (msg_Content m) \<and>
        msg_Name m = [] \<and> msg_ToolCallID m \<notin> set (recorded_ids messages))" .
  moreover have "(\<exists>err. convertMessagesToGeminiContents U N messages = Inl err) \<longleftrightarrow>
      (\<exists>err. convert_loop U N messages ?st0 = Inl err)"
    by (auto simp: convertMessagesToGeminiContents_def split: sum.splits)
  ultimately have "(\<exists>err. convertMessagesToGeminiContents U N messages = Inl err) \<longleftrightarrow>
     (\<exists>m \<in> set messages. msg_Role m = ''tool'' \<and> text_or_array (msg_Content m) \<and>
        msg_Name m = [] \<and> msg_ToolCallID m \<notin> set (recorded_ids messages))"
    by simp
  with tool_response_name [of msg names ids out n] show ?thesis
    by (intro conjI) (elim conjE, assumption)+
qed

theorem missing_function_name_error_witness:
  "(\<exists>err. convertMessagesToGeminiContents (\<lambda>s. Inr (Some [])) (\<lambda>n. ''0'')
      [\<lparr>msg_Role = ''tool'', msg_Content = JStr ''out'', msg_Name = [], msg_ToolCallID = ''c9'',
         msg_ToolCalls = []\<rparr>] = Inl err)
   \<and> \<not> (\<exists>err. convertMessagesToGeminiContents (\<lambda>s. Inr (Some [])) (\<lambda>n. ''0'')
      [\<lparr>msg_Role = ''assistant'', msg_Content = JNull, msg_Name = [], msg_ToolCallID = [],
         msg_ToolCalls = [\<lparr>tc_ID = ''c1'', tc_Name = ''f'', tc_Arguments = ''{}''\<rparr>]\<rparr>,
       \<lparr>msg_Role = ''tool'', msg_Content = JStr ''out'', msg_Name = [], msg_ToolCallID = ''c1'',
         msg_ToolCalls = []\<rparr>] = Inl err)"
proof -
  let ?U = "\<lambda>s::string. Inr (Some []) :: string + jmap option"
  let ?N = "\<lambda>n::nat. ''0''"
  let ?bad = "[\<lparr>msg_Role = ''tool'', msg_Content = JStr ''out'', msg_Name = [], msg_ToolCallID = ''c9'',
         msg_ToolCalls = []\<rparr>]"
  let ?good = "[\<lparr>msg_Role = ''assistant'', msg_Content = JNull, msg_Name = [], msg_ToolCallID = [],
         msg_ToolCalls = [\<lparr>tc_ID = ''c1'', tc_Name = ''f'', tc_Arguments = ''{}''\<rparr>]\<rparr>,
       \<lparr>msg_Role = ''tool'', msg_Content = JStr ''out'', msg_Name = [], msg_ToolCallID = ''c1'',
         msg_ToolCalls = []\<rparr>]"
  have fb: "\<forall>m \<in> set ?bad. \<forall>n. msg_ToolCallID m \<noteq> ''toolu_'' @ ?N n" by simp
  have fg: "\<forall>m \<in> set ?good. \<forall>n. msg_ToolCallID m \<noteq> ''toolu_'' @ ?N n" by simp
  from missing_function_name_error [OF fb, of ?U, THEN conjunct1]
  have "(\<exists>err. convertMessagesToGeminiContents ?U ?N ?bad = Inl err) \<longleftrightarrow>
     (\<exists>m \<in> set ?bad. msg_Role m = ''tool'' \<and> text_or_array (msg_Content m) \<and>
        msg_Name m = [] \<and> msg_ToolCallID m \<notin> set (recorded_ids ?bad))" .
  then have b: "\<exists>err. convertMessagesToGeminiContents ?U ?N ?bad = Inl err"
    by (simp add: recorded_ids_def)
  from missing_function_name_error [OF fg, of ?U, THEN conjunct1]
  have "(\<exists>err. convertMessagesToGeminiContents ?U ?N ?good = Inl err) \<longleftrightarrow>
     (\<exists>m \<in> set ?good. msg_Role m = ''tool'' \<and> text_or_array (msg_Content m) \<and>
        msg_Name m = [] \<and> msg_ToolCallID m \<notin> set (recorded_ids ?good))" .
  then have g: "\<not> (\<exists>err. convertMessagesToGeminiContents ?U ?N ?good = Inl err)"
    by (simp add: recorded_ids_def)
  from b g show ?thesis ..
qed

text \<open>
  C8, as stated, fails: a tool message without a name and without a \<open>tool_call_id\<close> whose
  content is \<open>null\<close> is dropped, and translation succeeds.
\<close>

theorem tool_message_dropped_counterexample:
  "convertMessagesToGeminiContents (\<lambda>s. Inr (Some [])) (\<lambda>n. ''0'')
     [\<lparr>msg_Role = ''tool'', msg_Content = JNull, msg_Name = [], msg_ToolCallID = [], msg_ToolCalls = []\<rparr>]
   = Inr ([], None)"
  by code_simp

section \<open>Properties of the upstream client\<close>

lemma doRequest_shape:
  assumes "doRequest w url hist = (r, calls)"
  shows "calls \<noteq> [] \<and>
     (\<exists>t t'. prefix calls [GetCredentials, Do url t, RefreshToken, GetCredentials, Do url t'])"
  using assms
  by (auto simp: doRequest_def doRequestWithToken_def prefix_Cons
      split: sum.splits option.splits if_splits)

lemma doRequest_refresh:
  assumes "doRequest w url hist = (r, calls)"
  shows "RefreshToken \<in> set calls \<longleftrightarrow>
     (\<exists>t resp. credentials w hist = Inr t \<and> t \<noteq> [] \<and>
        http w (hist @ [GetCredentials]) url t = Inr resp \<and> StatusCode resp = 401)"
  using assms
  by (auto simp: doRequest_def doRequestWithToken_def
      split: sum.splits option.splits if_splits)

lemma doRequest_retry:
  assumes "doRequest w url hist = (r, calls)"
  shows "length calls = 5 \<longleftrightarrow>
     RefreshToken \<in> set calls \<and> refresh w (hist @ take 2 calls) = None \<and>
     (\<exists>t'. credentials w (hist @ take 3 calls) = Inr t')"
  using assms
  by (auto simp: doRequest_def doRequestWithToken_def
      split: sum.splits option.splits if_splits)

lemma doRequest_response:
  assumes "doRequest w url hist = (Inr resp, calls)"
  shows "\<exists>t. last calls = Do url t \<and> http w (hist @ butlast calls) url t = Inr resp"
  using assms
  by (auto simp: doRequest_def doRequestWithToken_def
      split: sum.splits option.splits if_splits)


lemma calls_of_snoc: "calls_of (tried @ [a]) = calls_of tried @ att_calls a"
  by (simp add: calls_of_def)

lemma recorded_error_simps:
  "recorded_error \<lparr>att_endpoint = e, att_calls = c, att_result = Inl err\<rparr> = Errorf err"
  "Body resp = Inl err \<Longrightarrow>
   recorded_error \<lparr>att_endpoint = e, att_calls = c, att_result = Inr resp\<rparr>
     = Errorf (''could not read response body: '' @ err)"
  "Body resp = Inr b \<Longrightarrow>
   recorded_error \<lparr>att_endpoint = e, att_calls = c, att_result = Inr resp\<rparr>
     = UpstreamError (StatusCode resp) b (ContentType resp) e"
  by (simp_all add: recorded_error_def)

lemma loop_post_continue:
  assumes "loop_post U es (Some (recorded_error a)) res new" and "\<not> ok200 (att_result a)"
  shows "loop_post U (att_endpoint a # es) lastErr res (a # new)"
  using assms unfolding loop_post_def
  by (cases res; cases "new = []") (auto split: if_splits)

lemma generate_loop_post:
  "generate_loop w U es lastErr tried0 = (res, tried) \<Longrightarrow>
   \<exists>new. tried = tried0 @ new \<and> replay w (calls_of tried0) new \<and> loop_post U es lastErr res new"
proof (induction es arbitrary: lastErr tried0)
  case Nil
  then have "tried = tried0 @ [] \<and> replay w (calls_of tried0) [] \<and> loop_post U [] lastErr res []"
    by (auto simp: loop_post_def split: option.splits)
  then show ?case by blast
next
  case (Cons endpoint es)
  obtain r calls where d: "doRequest w (endpoint @ ''/v1internal:generateContent'') (calls_of tried0) = (r, calls)"
    by (cases "doRequest w (endpoint @ ''/v1internal:generateContent'') (calls_of tried0)")
  let ?a = "\<lparr>att_endpoint = endpoint, att_calls = calls, att_result = r\<rparr>"
  have rp: "replay w (calls_of tried0) (?a # new) \<longleftrightarrow> replay w (calls_of (tried0 @ [?a])) new" for new
    using d by (simp add: calls_of_snoc)
  show ?case
  proof (cases "ok200 r")
    case True
    then obtain resp b where r: "r = Inr resp" "StatusCode resp = 200" "Body resp = Inr b"
      by (cases r) (auto split: sum.splits)
    with Cons.prems d have res: "tried = tried0 @ [?a]"
      "res = (case U b of Inl e \<Rightarrow> Inl (Errorf (''could not unmarshal response body: '' @ e)) | Inr x \<Rightarrow> Inr x)"
      by (auto simp: Let_def split: sum.splits)
    have "loop_post U (endpoint # es) lastErr res [?a]"
      using r res(2) by (auto simp: loop_post_def split: sum.splits)
    moreover have "replay w (calls_of tried0) [?a]"
      using d by simp
    ultimately show ?thesis
      using res(1) by blast
  next
    case False
    then have "generate_loop w U (endpoint # es) lastErr tried0
        = generate_loop w U es (Some (recorded_error ?a)) (tried0 @ [?a])"
      using d by (cases r) (auto simp: recorded_error_def Let_def split: sum.splits)
    with Cons.prems have "generate_loop w U es (Some (recorded_error ?a)) (tried0 @ [?a]) = (res, tried)"
      by simp
    from Cons.IH [OF this] obtain new where new: "tried = (tried0 @ [?a]) @ new"
      "replay w (calls_of (tried0 @ [?a])) new" "loop_post U es (Some (recorded_error ?a)) res new"
      by blast
    have "loop_post U (endpoint # es) lastErr res (?a # new)"
      using loop_post_continue [OF new(3), of lastErr] False by simp
    moreover have "replay w (calls_of tried0) (?a # new)"
      using new(2) rp by simp
    moreover have "tried = tried0 @ (?a # new)"
      using new(1) by simp
    ultimately show ?thesis by blast
  qed
qed


lemma replay_shape:
  "replay w hist tried \<Longrightarrow>
   \<forall>a \<in> set tried. att_calls a \<noteq> [] \<and>
     (\<exists>t t'. prefix (att_calls a)
        [GetCredentials, Do (att_endpoint a @ ''/v1internal:generateContent'') t, RefreshToken,
         GetCredentials, Do (att_endpoint a @ ''/v1internal:generateContent'') t'])"
proof (induction tried arbitrary: hist)
  case Nil
  show ?case by simp
next
  case (Cons a tried)
  from Cons.prems have d: "doRequest w (att_endpoint a @ ''/v1internal:generateContent'') hist = (att_result a, att_calls a)"
    and r: "replay w (hist @ att_calls a) tried"
    by simp_all
  from doRequest_shape [OF d] Cons.IH [OF r] show ?case
    by simp
qed

text \<open>
  C4, as the code has it, for the loop of \<open>GenerateContent\<close> over any list of endpoints.
  The attempts are made on the endpoints in their order, none skipped, each being one
  \<open>doRequest\<close>: it reads the credentials, sends the request, and only after a 401 refreshes
  once, reads the credentials again and sends the request once more to the same URL,
  stopping where the refresh or the reading fails. Every attempt but the last ends
  without a readable 200 response. A result is the parsed body of the 200 response of the
  last attempt; an error is either that this body did not parse, whatever endpoints
  remain, or the error recorded for the last attempt after all endpoints were tried.
\<close>

theorem GenerateContent_failover:
  assumes "generate_loop w U endpoints None [] = (res, tried)"
  shows "prefix (map att_endpoint tried) endpoints
   \<and> replay w [] tried
   \<and> (\<forall>a \<in> set tried. att_calls a \<noteq> [] \<and>
        (\<exists>t t'. prefix (att_calls a)
           [GetCredentials, Do (att_endpoint a @ ''/v1internal:generateContent'') t, RefreshToken,
            GetCredentials, Do (att_endpoint a @ ''/v1internal:generateContent'') t']))
   \<and> (\<forall>a \<in> set (butlast tried). \<not> ok200 (att_result a))
   \<and> (case res of
        Inr x \<Rightarrow>
          tried \<noteq> [] \<and>
          (\<exists>resp b. att_result (last tried) = Inr resp \<and> StatusCode resp = 200 \<and>
             Body resp = Inr b \<and> U b = Inr x)
      | Inl err \<Rightarrow>
          (tried \<noteq> [] \<and>
           (\<exists>resp b e. att_result (last tried) = Inr resp \<and> StatusCode resp = 200 \<and>
              Body resp = Inr b \<and> U b = Inl e \<and>
              err = Errorf (''could not unmarshal response body: '' @ e))) \<or>
          (map att_endpoint tried = endpoints \<and> (\<forall>a \<in> set tried. \<not> ok200 (att_result a)) \<and>
           err = (if tried = [] then Errorf ''generateContent failed with no endpoints available''
                  else recorded_error (last tried))))
   \<and> (\<forall>url hist r calls. doRequest w url hist = (r, calls) \<longrightarrow>
        (RefreshToken \<in> set calls \<longleftrightarrow>
           (\<exists>t resp. credentials w hist = Inr t \<and> t \<noteq> [] \<and>
              http w (hist @ [GetCredentials]) url t = Inr resp \<and> StatusCode resp = 401)) \<and>
        (length calls = 5 \<longleftrightarrow>
           RefreshToken \<in> set calls \<and> refresh w (hist @ take 2 calls) = None \<and>
           (\<exists>t'. credentials w (hist @ take 3 calls) = Inr t')) \<and>
        (\<forall>resp. r = Inr resp \<longrightarrow>
           (\<exists>t. last calls = Do url t \<and> http w (hist @ butlast calls) url t = Inr resp)))"
proof -
  from generate_loop_post [OF assms] have rp: "replay w [] tried"
    and post: "loop_post U endpoints None res tried"
    by (auto simp: calls_of_def)
  from post have 1: "prefix (map att_endpoint tried) endpoints"
    and 4: "\<forall>a \<in> set (butlast tried). \<not> ok200 (att_result a)"
    by (simp_all add: loop_post_def)
  note 3 = replay_shape [OF rp]
  from post have 5: "case res of
        Inr x \<Rightarrow>
          tried \<noteq> [] \<and>
          (\<exists>resp b. att_result (last tried) = Inr resp \<and> StatusCode resp = 200 \<and>
             Body resp = Inr b \<and> U b = Inr x)
      | Inl err \<Rightarrow>
          (tried \<noteq> [] \<and>
           (\<exists>resp b e. att_result (last tried) = Inr resp \<and> StatusCode resp = 200 \<and>
              Body resp = Inr b \<and> U b = Inl e \<and>
              err = Errorf (''could not unmarshal response body: '' @ e))) \<or>
          (map att_endpoint tried = endpoints \<and> (\<forall>a \<in> set tried. \<not> ok200 (att_result a)) \<and>
           err = (if tried = [] then Errorf ''generateContent failed with no endpoints available''
                  else recorded_error (last tried)))"
    unfolding loop_post_def by (cases res) (auto split: if_splits)
  have 6: "\<forall>url hist r calls. doRequest w url hist = (r, calls) \<longrightarrow>
        (RefreshToken \<in> set calls \<longleftrightarrow>
           (\<exists>t resp. credentials w hist = Inr t \<and> t \<noteq> [] \<and>
              http w (hist @ [GetCredentials]) url t = Inr resp \<and> StatusCode resp = 401)) \<and>
        (length calls = 5 \<longleftrightarrow>
           RefreshToken \<in> set calls \<and> refresh w (hist @ take 2 calls) = None \<and>
           (\<exists>t'. credentials w (hist @ take 3 calls) = Inr t')) \<and>
        (\<forall>resp. r = Inr resp \<longrightarrow>
           (\<exists>t. last calls = Do url t \<and> http w (hist @ butlast calls) url t = Inr resp))"
    using doRequest_refresh doRequest_retry doRequest_response by blast
  from 1 rp 3 4 5 6 show ?thesis
    by (intro conjI)
qed


text \<open>
  C4, as stated, fails. When the first endpoint answers 200 with a body that does not
  parse, the call fails with the second endpoint never tried. When every request is
  answered 401 and the refresh fails, each attempt ends after the refresh, without a retry.
\<close>

theorem GenerateContent_failover_counterexample:
  "fst (GenerateContent
      \<lparr>credentials = (\<lambda>hist. Inr ''token''), refresh = (\<lambda>hist. None),
       http = (\<lambda>hist url token. Inr \<lparr>StatusCode = 200, Body = Inr ''<html>'', ContentType = ''text/html''\<rparr>)\<rparr>
      (\<lambda>b. Inl ''invalid character'' :: string + unit) (Inr ''{}''))
     = Inl (Errorf ''could not unmarshal response body: invalid character'')
   \<and> map att_endpoint (snd (GenerateContent
      \<lparr>credentials = (\<lambda>hist. Inr ''token''), refresh = (\<lambda>hist. None),
       http = (\<lambda>hist url token. Inr \<lparr>StatusCode = 200, Body = Inr ''<html>'', ContentType = ''text/html''\<rparr>)\<rparr>
      (\<lambda>b. Inl ''invalid character'' :: string + unit) (Inr ''{}'')))
     = [''https://daily-cloudcode-pa.googleapis.com'']
   \<and> map att_calls (snd (GenerateContent
      \<lparr>credentials = (\<lambda>hist. Inr ''token''), refresh = (\<lambda>hist. Some ''invalid_grant''),
       http = (\<lambda>hist url token. Inr \<lparr>StatusCode = 401, Body = Inr [], ContentType = []\<rparr>)\<rparr>
      (\<lambda>b. Inl ''invalid character'' :: string + unit) (Inr ''{}'')))
     = [[GetCredentials,
         Do ''https://daily-cloudcode-pa.googleapis.com/v1internal:generateContent'' ''token'',
         RefreshToken],
        [GetCredentials,
         Do ''https://cloudcode-pa.googleapis.com/v1internal:generateContent'' ''token'',
         RefreshToken]]"
  by code_simp

theorem GenerateContent_failover_witness:
  "generate_loop
      \<lparr>credentials = (\<lambda>hist. if RefreshToken \<in> set hist then Inr ''new'' else Inr ''old''),
       refresh = (\<lambda>hist. None),
       http = (\<lambda>hist url token.
         if url = ''https://daily-cloudcode-pa.googleapis.com/v1internal:generateContent'' then
           (if RefreshToken \<in> set hist
            then Inr \<lparr>StatusCode = 503, Body = Inr ''busy'', ContentType = ''text/plain''\<rparr>
            else Inr \<lparr>StatusCode = 401, Body = Inr [], ContentType = []\<rparr>)
         else Inr \<lparr>StatusCode = 200, Body = Inr ''{}'', ContentType = ''application/json''\<rparr>)\<rparr>
      (\<lambda>b. if b = ''{}'' then Inr () else Inl ''unexpected end of JSON input'')
      Endpoints None []
   = (Inr (),
      [\<lparr>att_endpoint = ''https://daily-cloudcode-pa.googleapis.com'',
        att_calls = [GetCredentials,
          Do ''https://daily-cloudcode-pa.googleapis.com/v1internal:generateContent'' ''old'',
          RefreshToken, GetCredentials,
          Do ''https://daily-cloudcode-pa.googleapis.com/v1internal:generateContent'' ''new''],
        att_result = Inr \<lparr>StatusCode = 503, Body = Inr ''busy'', ContentType = ''text/plain''\<rparr>\<rparr>,
       \<lparr>att_endpoint = ''https://cloudcode-pa.googleapis.com'',
        att_calls = [GetCredentials,
          Do ''https://cloudcode-pa.googleapis.com/v1internal:generateContent'' ''new''],
        att_result = Inr \<lparr>StatusCode = 200, Body = Inr ''{}'', ContentType = ''application/json''\<rparr>\<rparr>])
   \<and> prefix (map att_endpoint
      [\<lparr>att_endpoint = ''https://daily-cloudcode-pa.googleapis.com'',
        att_calls = [GetCredentials,
          Do ''https://daily-cloudcode-pa.googleapis.com/v1internal:generateContent'' ''old'',
          RefreshToken, GetCredentials,
          Do ''https://daily-cloudcode-pa.googleapis.com/v1internal:generateContent'' ''new''],
        att_result = Inr \<lparr>StatusCode = 503, Body = Inr ''busy'', ContentType = ''text/plain''\<rparr>\<rparr>,
       \<lparr>att_endpoint = ''https://cloudcode-pa.googleapis.com'',
        att_calls = [GetCredentials,
          Do ''https://cloudcode-pa.googleapis.com/v1internal:generateContent'' ''new''],
        att_result = Inr \<lparr>StatusCode = 200, Body = Inr ''{}'', ContentType = ''application/json''\<rparr>\<rparr>]) Endpoints
   \<and> replay
      \<lparr>credentials = (\<lambda>hist. if RefreshToken \<in> set hist then Inr ''new'' else Inr ''old''),
       refresh = (\<lambda>hist. None),
       http = (\<lambda>hist url token.
         if url = ''https://daily-cloudcode-pa.googleapis.com/v1internal:generateContent'' then
           (if RefreshToken \<in> set hist
            then Inr \<lparr>StatusCode = 503, Body = Inr ''busy'', ContentType = ''text/plain''\<rparr>
            else Inr \<lparr>StatusCode = 401, Body = Inr [], ContentType = []\<rparr>)
         else Inr \<lparr>StatusCode = 200, Body = Inr ''{}'', ContentType = ''application/json''\<rparr>)\<rparr> []
      [\<lparr>att_endpoint = ''https://daily-cloudcode-pa.googleapis.com'',
        att_calls = [GetCredentials,
          Do ''https://daily-cloudcode-pa.googleapis.com/v1internal:generateContent'' ''old'',
          RefreshToken, GetCredentials,
          Do ''https://daily-cloudcode-pa.googleapis.com/v1internal:generateContent'' ''new''],
        att_result = Inr \<lparr>StatusCode = 503, Body = Inr ''busy'', ContentType = ''text/plain''\<rparr>\<rparr>,
       \<lparr>att_endpoint = ''https://cloudcode-pa.googleapis.com'',
        att_calls = [GetCredentials,
          Do ''https://cloudcode-pa.googleapis.com/v1internal:generateContent'' ''new''],
        att_result = Inr \<lparr>StatusCode = 200, Body = Inr ''{}'', ContentType = ''application/json''\<rparr>\<rparr>]"
proof -
  let ?w = "\<lparr>credentials = (\<lambda>hist. if RefreshToken \<in> set hist then Inr ''new'' else Inr ''old''),
       refresh = (\<lambda>hist. None),
       http = (\<lambda>hist url token.
         if url = ''https://daily-cloudcode-pa.googleapis.com/v1internal:generateContent'' then
           (if RefreshToken \<in> set hist
            then Inr \<lparr>StatusCode = 503, Body = Inr ''busy'', ContentType = ''text/plain''\<rparr>
            else Inr \<lparr>StatusCode = 401, Body = Inr [], ContentType = []\<rparr>)
         else Inr \<lparr>StatusCode = 200, Body = Inr ''{}'', ContentType = ''application/json''\<rparr>)\<rparr>"
  let ?U = "(\<lambda>b. if b = ''{}'' then Inr () else Inl ''unexpected end of JSON input'')"
  let ?tried = "[\<lparr>att_endpoint = ''https://daily-cloudcode-pa.googleapis.com'',
        att_calls = [GetCredentials,
          Do ''https://daily-cloudcode-pa.googleapis.com/v1internal:generateContent'' ''old'',
          RefreshToken, GetCredentials,
          Do ''https://daily-cloudcode-pa.googleapis.com/v1internal:generateContent'' ''new''],
        att_result = Inr \<lparr>StatusCode = 503, Body = Inr ''busy'', ContentType = ''text/plain''\<rparr>\<rparr>,
       \<lparr>att_endpoint = ''https://cloudcode-pa.googleapis.com'',
        att_calls = [GetCredentials,
          Do ''https://cloudcode-pa.googleapis.com/v1internal:generateContent'' ''new''],
        att_result = Inr \<lparr>StatusCode = 200, Body = Inr ''{}'', ContentType = ''application/json''\<rparr>\<rparr>]"
  have e: "generate_loop ?w ?U Endpoints None [] = (Inr (), ?tried)"
    by code_simp
  note t = GenerateContent_failover [OF e]
  from t have 1: "prefix (map att_endpoint ?tried) Endpoints"
    by (rule conjunct1)
  from t have 2: "replay ?w [] ?tried"
    by (rule conjunct2 [THEN conjunct1])
  from e 1 2 show ?thesis
    by (intro conjI)
qed

end
